theory Spec2Isabelle
  imports Main
begin

section \<open>Library loader (server/src/javascriptLibs.ts)\<close>

text \<open>
  The module keeps one object literal \<open>contents\<close> as a name-indexed memo table and reads
  the file system through \<open>existsSync\<close> and \<open>readFileSync\<close>. The file system, the two
  installation paths and \<open>path.join\<close> are the environment of the module; the memo table,
  the console and the sequence of file-system calls are its state.
\<close>

datatype fs_op = Exists string | Read string

record lib_env =
  existsSync :: "string \<Rightarrow> bool"
  readFileSync :: "string \<Rightarrow> string option"
  path_join :: "string \<Rightarrow> string \<Rightarrow> string"
  JQUERY_PATH :: string
  TYPESCRIPT_LIB_SOURCE :: string

record lib_state =
  contents :: "string \<rightharpoonup> string"
  console :: "string list"
  fs_trace :: "fs_op list"

text \<open>
  \<open>contents\<close> is created by \<open>{}\<close>, so it inherits from \<open>Object.prototype\<close>. A name that is
  not an own property reads as \<open>undefined\<close> or as an inherited member, which is a function
  or an object and never a string: \<open>typeof content !== "string"\<close> holds exactly when the
  name is not an own property. An assignment creates an own property, except for the
  name \<open>__proto__\<close>: that one runs the inherited setter, which ignores a string value.
\<close>

definition obj_get :: "(string \<rightharpoonup> string) \<Rightarrow> string \<Rightarrow> string option" where
  "obj_get obj name = obj name"

definition obj_set :: "(string \<rightharpoonup> string) \<Rightarrow> string \<Rightarrow> string \<Rightarrow> (string \<rightharpoonup> string)" where
  "obj_set obj name v = (if name = ''__proto__'' then obj else obj(name \<mapsto> v))"

text \<open>The nested \<open>if\<close> of lines 20 to 28, with the \<open>existsSync\<close> call it may make.\<close>

definition resolve_lib :: "lib_env \<Rightarrow> string \<Rightarrow> string \<times> fs_op list" where
  "resolve_lib env name =
     (if name = ''jquery'' then (JQUERY_PATH env, [])
      else if existsSync env name then (name, [Exists name])
      else (path_join env (TYPESCRIPT_LIB_SOURCE env) name, [Exists name]))"

definition load_failure_message :: "string \<Rightarrow> string \<Rightarrow> string" where
  "load_failure_message name libPath = ''Unable to load library '' @ name @ '' at '' @ libPath"

definition loadLibrary :: "lib_env \<Rightarrow> string \<Rightarrow> lib_state \<Rightarrow> string \<times> lib_state" where
  "loadLibrary env name st =
     (case obj_get (contents st) name of
        Some content \<Rightarrow> (content, st)
      | None \<Rightarrow>
          (let (libPath, probes) = resolve_lib env name;
               trace = fs_trace st @ probes @ [Read libPath];
               (content, out) =
                 (case readFileSync env libPath of
                    Some data \<Rightarrow> (data, console st)
                  | None \<Rightarrow> ('''', console st @ [load_failure_message name libPath]))
           in (content,
               \<lparr>contents = obj_set (contents st) name content, console = out, fs_trace = trace\<rparr>)))"

section \<open>Strings as the code uses them\<close>

text \<open>
  A \<open>char\<close> stands for one code unit of a JavaScript string, so the model covers the
  code units below 256. Among these, the white space that \<open>trim\<close> and \<open>trimEnd\<close>
  remove is TAB, LF, VT, FF, CR, SPACE and NBSP, and the line terminators that \<open>.\<close>
  of a regular expression refuses are LF and CR.
\<close>

definition LF :: char where "LF = CHR 0x0A"
definition CR :: char where "CR = CHR 0x0D"
definition TAB :: char where "TAB = CHR 0x09"
definition SPACE :: char where "SPACE = CHR 0x20"

definition is_white_space :: "char \<Rightarrow> bool" where
  "is_white_space c \<longleftrightarrow>
     c = CHR 0x09 \<or> c = CHR 0x0A \<or> c = CHR 0x0B \<or> c = CHR 0x0C \<or> c = CHR 0x0D
     \<or> c = CHR 0x20 \<or> c = CHR 0xA0"

definition is_line_terminator :: "char \<Rightarrow> bool" where
  "is_line_terminator c \<longleftrightarrow> c = CHR 0x0A \<or> c = CHR 0x0D"

definition trimEnd :: "string \<Rightarrow> string" where
  "trimEnd s = rev (dropWhile is_white_space (rev s))"

definition trim :: "string \<Rightarrow> string" where
  "trim s = dropWhile is_white_space (trimEnd s)"

text \<open>\<open>s.split(c)\<close> for a one-character separator: never the empty array.\<close>

fun split_on :: "char \<Rightarrow> string \<Rightarrow> string list" where
  "split_on c [] = [[]]"
| "split_on c (x # xs) =
     (if x = c then [] # split_on c xs
      else (case split_on c xs of [] \<Rightarrow> [[x]] | l # ls \<Rightarrow> (x # l) # ls))"

text \<open>\<open>parts.join(sep)\<close>.\<close>

fun join_with :: "string \<Rightarrow> string list \<Rightarrow> string" where
  "join_with sep [] = []"
| "join_with sep [x] = x"
| "join_with sep (x # y # ys) = x @ sep @ join_with sep (y # ys)"

text \<open>\<open>s.indexOf(p) === 0\<close>: the first occurrence of \<open>p\<close> in \<open>s\<close> is at the very start.\<close>

definition indexOf_is_0 :: "string \<Rightarrow> string \<Rightarrow> bool" where
  "indexOf_is_0 s p \<longleftrightarrow> take (length p) s = p"

text \<open>
  Case-insensitive comparison of the \<open>i\<close> flag against an ASCII pattern character:
  both sides are canonicalised by upper-casing, and a code unit of 128 or more never
  canonicalises to an ASCII one.
\<close>

definition ascii_upper :: "char \<Rightarrow> char" where
  "ascii_upper c =
     (let n = (of_char c :: nat) in if 97 \<le> n \<and> n \<le> 122 then char_of (n - 32) else c)"

fun ci_prefix :: "string \<Rightarrow> string \<Rightarrow> bool" where
  "ci_prefix [] s = True"
| "ci_prefix (p # ps) [] = False"
| "ci_prefix (p # ps) (c # cs) = (ascii_upper c = ascii_upper p \<and> ci_prefix ps cs)"

text \<open>Decimal rendering of a number that is appended to a string.\<close>

definition digit_char :: "nat \<Rightarrow> char" where
  "digit_char d = char_of (48 + d)"

fun show_nat :: "nat \<Rightarrow> string" where
  "show_nat n = (if n < 10 then [digit_char n] else show_nat (n div 10) @ [digit_char (n mod 10)])"

declare show_nat.simps [simp del]

section \<open>Protocol types (vscode-languageserver-types)\<close>

record Position =
  line :: nat
  character :: nat

record Range =
  range_start :: Position
  range_end :: Position

record Location =
  loc_uri :: string
  loc_range :: Range

record TextEdit =
  edit_range :: Range
  newText :: string

record FormattingOptions =
  tabSize :: nat
  insertSpaces :: bool

text \<open>
  \<open>TextDocument\<close> is an interface of the protocol library: the identity of the document
  and the methods the code calls on it. \<open>getFullText\<close> is \<open>getText()\<close> without a range.
\<close>

record TextDocument =
  uri :: string
  version :: int
  getText :: "Range \<Rightarrow> string"
  getFullText :: string
  offsetAt :: "Position \<Rightarrow> nat"
  positionAt :: "nat \<Rightarrow> Position"

definition Position_create :: "nat \<Rightarrow> nat \<Rightarrow> Position" where
  "Position_create l c = \<lparr>line = l, character = c\<rparr>"

definition Range_create :: "Position \<Rightarrow> Position \<Rightarrow> Range" where
  "Range_create s e = \<lparr>range_start = s, range_end = e\<rparr>"

definition Location_create :: "string \<Rightarrow> Range \<Rightarrow> Location" where
  "Location_create u r = \<lparr>loc_uri = u, loc_range = r\<rparr>"

section \<open>Errors\<close>

text \<open>
  The exceptions that the code can raise: a \<open>TypeError\<close> for a property read on
  \<open>undefined\<close>, and the \<open>SyntaxError\<close> with which the formatter refuses a text it cannot
  parse. None of the functions below catches either.
\<close>

datatype js_error = TypeError | SyntaxError

section \<open>Template jump-to-definition (peekFileDefinition)\<close>

record WorkspaceFolder =
  folder_uri :: string
  folder_name :: string

record IncludePart =
  part_start :: nat
  part_end :: nat
  part_text :: string
  template :: string

text \<open>
  \<open>Settings\<close> is declared in \<open>modes/languageModes\<close>, which is not among the sources. The
  JavaScript mode initialises \<open>globalSettings: Settings\<close> with the empty object, so the
  \<open>blade\<close> entry and its \<open>views\<close> entry may be missing, and reading a property of a
  missing entry raises a \<open>TypeError\<close>.
\<close>

record views_settings =
  views_path :: string

record blade_settings =
  views :: "views_settings option"

record Settings =
  blade :: "blade_settings option"

record PeekOptions =
  settings :: Settings
  workspaceFolders :: "WorkspaceFolder list option"

definition getWorkspacePath :: "WorkspaceFolder list option \<Rightarrow> TextDocument \<Rightarrow> string option" where
  "getWorkspacePath folders document =
     (case folders of
        None \<Rightarrow> None
      | Some fs \<Rightarrow>
          (if fs \<noteq> [] then
             (case filter (\<lambda>a. indexOf_is_0 (uri document) (folder_uri a)) fs of
                [] \<Rightarrow> None
              | a # _ \<Rightarrow> Some (folder_uri a))
           else None))"

definition joinUri :: "string list \<Rightarrow> string" where
  "joinUri args = join_with ''/'' args"

text \<open>
  The regular expression \<open>/@(?:include|extends)\((.+?('|"))/gi\<close>. Both keywords with
  their \<open>@\<close> and \<open>(\<close> are nine characters long. After them the lazy \<open>.+?\<close> takes one
  character that is not a line terminator and then the fewest further such characters
  that bring it to a quote; \<open>lazy_to_quote\<close> is that second part and returns how many
  characters it consumed, the quote included.
\<close>

definition is_quote :: "char \<Rightarrow> bool" where
  "is_quote c \<longleftrightarrow> c = CHR 0x27 \<or> c = CHR 0x22"

fun lazy_to_quote :: "string \<Rightarrow> nat option" where
  "lazy_to_quote [] = None"
| "lazy_to_quote (c # cs) =
     (if is_quote c then Some 1
      else if is_line_terminator c then None
      else map_option Suc (lazy_to_quote cs))"

definition match_here :: "string \<Rightarrow> nat option" where
  "match_here s =
     (if ci_prefix ''@include('' s \<or> ci_prefix ''@extends('' s then
        (case drop 9 s of
           [] \<Rightarrow> None
         | c # cs \<Rightarrow>
             (if is_line_terminator c then None
              else map_option (\<lambda>n. 9 + 1 + n) (lazy_to_quote cs)))
      else None)"

text \<open>
  The \<open>while ((match = regex.exec(lineText)))\<close> loop: \<open>i\<close> is the index of the first
  character of \<open>s\<close> in the line, the search resumes where the last match ended, and the
  part records the match, its bounds and the first group without its quotes.
\<close>

function exec_all :: "nat \<Rightarrow> string \<Rightarrow> IncludePart list" where
  "exec_all i [] = []"
| "exec_all i (c # cs) =
     (case match_here (c # cs) of
        None \<Rightarrow> exec_all (i + 1) cs
      | Some n \<Rightarrow>
          \<lparr>part_start = i, part_end = i + n, part_text = take n (c # cs),
           template = filter (\<lambda>x. \<not> is_quote x) (drop 9 (take n (c # cs)))\<rparr>
          # exec_all (i + n) (drop n (c # cs)))"
  by pat_completeness auto
termination
  by (relation "measure (\<lambda>(i, s). length s)")
     (auto simp: match_here_def split: if_splits list.splits)

text \<open>Lines 33 to 36: the text of the cursor's line, up to the start of the next line.\<close>

definition lineText_of :: "TextDocument \<Rightarrow> Position \<Rightarrow> string" where
  "lineText_of document position =
     (let startPos = Position_create (line position) 0;
          endPos = Position_create (line position + 1) 0
      in getText document (Range_create startPos endPos))"

text \<open>Lines 38 to 53: all \<open>@include\<close> and \<open>@extends\<close> parts of a line that is not blank.\<close>

definition findIncludeParts :: "string \<Rightarrow> IncludePart list" where
  "findIncludeParts lineText =
     (if lineText \<noteq> [] \<and> trim lineText \<noteq> [] then exec_all 0 lineText else [])"

definition peekFileDefinition ::
  "TextDocument \<Rightarrow> Position \<Rightarrow> PeekOptions \<Rightarrow> js_error + Location list option" where
  "peekFileDefinition document position options =
     (let lineText = lineText_of document position;
          includeParts = findIncludeParts lineText;
          workspacePath =
            (case getWorkspacePath (workspaceFolders options) document of None \<Rightarrow> [] | Some p \<Rightarrow> p)
      in case blade (settings options) of
           None \<Rightarrow> Inl TypeError
         | Some b \<Rightarrow>
             (case views b of
                None \<Rightarrow> Inl TypeError
              | Some v \<Rightarrow>
                  (let viewsBaseUri = joinUri [workspacePath, views_path v];
                       peekPart =
                         filter (\<lambda>part. part_start part < character position
                                   \<and> part_end part > character position)
                           includeParts
                   in Inr (Some (case peekPart of
                                   [] \<Rightarrow> []
                                 | p # _ \<Rightarrow>
                                     [Location_create
                                        (joinUri (viewsBaseUri # split_on (CHR ''.'') (template p))
                                         @ ''.blade.php'')
                                        (Range_create (Position_create 0 0) (Position_create 0 0))])))))"

section \<open>Re-indenting formatter output (utils/prettier.ts)\<close>

text \<open>
  The external formatter \<open>prettier.format\<close> receives the text, the parser name,
  \<open>tabWidth\<close> and \<open>useTabs\<close>. It returns the formatted text or raises on a text that its
  parser rejects.
\<close>

type_synonym formatter = "string \<Rightarrow> string \<Rightarrow> nat \<Rightarrow> bool \<Rightarrow> js_error + string"

text \<open>
  The regular expression \<open>/(\n\r?[ \t]*)$/\<close> without the \<open>m\<close> flag: a line feed, an
  optional carriage return and then only spaces and tabs up to the end of the text.
  \<open>exec\<close> tries the start positions from the left.
\<close>

definition is_blank :: "char \<Rightarrow> bool" where
  "is_blank c \<longleftrightarrow> c = CHR 0x20 \<or> c = CHR 0x09"

definition tail_matches :: "string \<Rightarrow> bool" where
  "tail_matches r =
     list_all is_blank (case r of [] \<Rightarrow> [] | d # r' \<Rightarrow> if d = CR then r' else d # r')"

fun exec_tail :: "string \<Rightarrow> string option" where
  "exec_tail [] = None"
| "exec_tail (c # r) = (if c = LF \<and> tail_matches r then Some (c # r) else exec_tail r)"

text \<open>
  Modelled from the spec: the helpers \<open>get\<close> of \<open>./share\<close> and \<open>repeat\<close> of \<open>./strings\<close>
  are not among the sources. \<open>get(m, 0)\<close> is taken as the null-safe read of the whole
  match, which is what lets the original trailing white space be preserved at the end,
  and \<open>repeat(s, n)\<close> as \<open>n\<close> copies of \<open>s\<close>.
\<close>

definition get_0 :: "string option \<Rightarrow> string option" where
  "get_0 m = (case m of None \<Rightarrow> None | Some whole \<Rightarrow> Some whole)"

definition repeat :: "string \<Rightarrow> nat \<Rightarrow> string" where
  "repeat s n = concat (replicate n s)"

definition tagIndent_of :: "string \<Rightarrow> string" where
  "tagIndent_of text = (case get_0 (exec_tail text) of None \<Rightarrow> [] | Some t \<Rightarrow> t)"

definition prefixIndent_of :: "string \<Rightarrow> string" where
  "prefixIndent_of text = filter (\<lambda>c. c \<noteq> LF) (tagIndent_of text)"

definition intdent_of :: "string \<Rightarrow> FormattingOptions \<Rightarrow> string" where
  "intdent_of text formattingOption =
     prefixIndent_of text
     @ (if insertSpaces formattingOption then repeat [SPACE] (tabSize formattingOption) else [TAB])"

definition format ::
  "formatter \<Rightarrow> string \<Rightarrow> string \<Rightarrow> FormattingOptions \<Rightarrow> js_error + string" where
  "format prettier text parser formattingOption =
     (case prettier text parser (tabSize formattingOption) (\<not> insertSpaces formattingOption) of
        Inl e \<Rightarrow> Inl e
      | Inr output \<Rightarrow>
          (let newText = output;
               tagIndent = tagIndent_of text;
               intdent = intdent_of text formattingOption;
               newText' = join_with [LF] (map (\<lambda>line. intdent @ line) (split_on LF newText))
           in Inr ([LF] @ trimEnd newText' @ tagIndent)))"

section \<open>The JavaScript mode (modes/javascriptMode.ts)\<close>

datatype CompletionItemKind =
  CikKeyword | CikVariable | CikField | CikFunction | CikEnum | CikModule | CikClass
  | CikInterface | CikFile | CikProperty

datatype SymbolKind =
  SkVariable | SkFunction | SkEnum | SkModule | SkClass | SkInterface | SkMethod | SkProperty

record TextSpan =
  span_start :: "nat option"
  span_length :: "nat option"

record CompletionEntry =
  entry_name :: string
  entry_sortText :: string
  entry_kind :: string

record DocumentSpan =
  fileName :: string
  textSpan :: TextSpan

datatype NavigationBarItem =
  NavigationBarItem (item_text: string) (item_kind: string) (item_spans: "TextSpan list")
    (item_childItems: "NavigationBarItem list")

record CompletionData =
  data_languageId :: string
  data_uri :: string
  data_offset :: nat

record CompletionItem =
  ci_uri :: string
  ci_position :: Position
  ci_label :: string
  ci_sortText :: string
  ci_kind :: CompletionItemKind
  ci_textEdit :: TextEdit
  ci_data :: CompletionData

record 'i CompletionList =
  isIncomplete :: bool
  items :: "'i list"

record SymbolInformation =
  sym_name :: string
  sym_kind :: SymbolKind
  sym_location :: Location
  containerName :: "string option"

definition FILE_NAME :: string where
  "FILE_NAME = ''vscode://javascript/1''"

text \<open>
  The closure variables of \<open>getJavascriptMode\<close>. \<open>fetched\<close> lists, by uri and version,
  the documents for which \<open>jsDocuments.get\<close> was called.
\<close>

record js_state =
  currentTextDocument :: "TextDocument option"
  scriptFileVersion :: nat
  fetched :: "(string \<times> int) list"

text \<open>
  What the mode is built on: the cache of embedded documents, the language service,
  which reads the current document and its version through the host and so depends on
  the state, the word finder of \<open>utils/strings\<close> and the formatter.
\<close>

record js_env =
  jsDocuments_get :: "TextDocument \<Rightarrow> TextDocument"
  getCompletionsAtPosition :: "js_state \<Rightarrow> nat \<Rightarrow> CompletionEntry list option"
  getDefinitionAtPosition :: "js_state \<Rightarrow> nat \<Rightarrow> DocumentSpan list option"
  getReferencesAtPosition :: "js_state \<Rightarrow> nat \<Rightarrow> DocumentSpan list option"
  getNavigationBarItems :: "js_state \<Rightarrow> NavigationBarItem list option"
  getWordAtText :: "string \<Rightarrow> nat \<Rightarrow> TextSpan"
  prettier_format :: formatter

definition js_initial :: js_state where
  "js_initial = \<lparr>currentTextDocument = None, scriptFileVersion = 0, fetched = []\<rparr>"

definition updateCurrentTextDocument :: "js_env \<Rightarrow> TextDocument \<Rightarrow> js_state \<Rightarrow> js_state" where
  "updateCurrentTextDocument env doc st =
     (if (case currentTextDocument st of
            None \<Rightarrow> True
          | Some cur \<Rightarrow> uri doc \<noteq> uri cur \<or> version doc \<noteq> version cur)
      then \<lparr>currentTextDocument = Some (jsDocuments_get env doc),
            scriptFileVersion = scriptFileVersion st + 1,
            fetched = fetched st @ [(uri doc, version doc)]\<rparr>
      else st)"

text \<open>The guard of \<open>updateCurrentTextDocument\<close>, negated: a document is tracked and has this uri and version.\<close>

definition tracks :: "js_state \<Rightarrow> string \<Rightarrow> int \<Rightarrow> bool" where
  "tracks st u v \<longleftrightarrow> (case currentTextDocument st of None \<Rightarrow> False | Some cur \<Rightarrow> uri cur = u \<and> version cur = v)"

text \<open>Every request of the mode starts with \<open>updateCurrentTextDocument\<close>.\<close>

fun requests :: "js_env \<Rightarrow> TextDocument list \<Rightarrow> js_state \<Rightarrow> js_state" where
  "requests env [] st = st"
| "requests env (doc # docs) st = requests env docs (updateCurrentTextDocument env doc st)"

definition convertRange :: "TextDocument \<Rightarrow> TextSpan \<Rightarrow> Range" where
  "convertRange document span =
     (case span_start span of
        None \<Rightarrow> (let pos = positionAt document 0 in Range_create pos pos)
      | Some s \<Rightarrow>
          (let startPosition = positionAt document s;
               endPosition = positionAt document (s + (case span_length span of None \<Rightarrow> 0 | Some l \<Rightarrow> l))
           in Range_create startPosition endPosition))"

definition convertKind :: "string \<Rightarrow> CompletionItemKind" where
  "convertKind kind =
     (if kind = ''primitive type'' \<or> kind = ''keyword'' then CikKeyword
      else if kind = ''var'' \<or> kind = ''local var'' then CikVariable
      else if kind = ''property'' \<or> kind = ''getter'' \<or> kind = ''setter'' then CikField
      else if kind = ''function'' \<or> kind = ''method'' \<or> kind = ''construct'' \<or> kind = ''call''
              \<or> kind = ''index'' then CikFunction
      else if kind = ''enum'' then CikEnum
      else if kind = ''module'' then CikModule
      else if kind = ''class'' then CikClass
      else if kind = ''interface'' then CikInterface
      else if kind = ''warning'' then CikFile
      else CikProperty)"

definition convertSymbolKind :: "string \<Rightarrow> SymbolKind" where
  "convertSymbolKind kind =
     (if kind = ''var'' \<or> kind = ''local var'' \<or> kind = ''const'' then SkVariable
      else if kind = ''function'' \<or> kind = ''local function'' then SkFunction
      else if kind = ''enum'' then SkEnum
      else if kind = ''module'' then SkModule
      else if kind = ''class'' then SkClass
      else if kind = ''interface'' then SkInterface
      else if kind = ''method'' then SkMethod
      else if kind = ''property'' \<or> kind = ''getter'' \<or> kind = ''setter'' then SkProperty
      else SkVariable)"

definition doComplete ::
  "js_env \<Rightarrow> TextDocument \<Rightarrow> Position \<Rightarrow> js_state
     \<Rightarrow> (js_error + CompletionItem CompletionList) \<times> js_state" where
  "doComplete env document position st =
     (let st' = updateCurrentTextDocument env document st
      in case currentTextDocument st' of
           None \<Rightarrow> (Inl TypeError, st')
         | Some cur \<Rightarrow>
             (let offset = offsetAt cur position
              in case getCompletionsAtPosition env st' offset of
                   None \<Rightarrow> (Inr \<lparr>isIncomplete = False, items = []\<rparr>, st')
                 | Some entries \<Rightarrow>
                     (let replaceRange = convertRange cur (getWordAtText env (getFullText cur) offset)
                      in (Inr \<lparr>isIncomplete = False,
                               items = map (\<lambda>entry.
                                 \<lparr>ci_uri = uri document, ci_position = position,
                                  ci_label = entry_name entry, ci_sortText = entry_sortText entry,
                                  ci_kind = convertKind (entry_kind entry),
                                  ci_textEdit = \<lparr>edit_range = replaceRange, newText = entry_name entry\<rparr>,
                                  ci_data = \<lparr>data_languageId = ''javascript'', data_uri = uri document,
                                             data_offset = offset\<rparr>\<rparr>) entries\<rparr>, st'))))"

definition to_location :: "TextDocument \<Rightarrow> TextDocument \<Rightarrow> DocumentSpan \<Rightarrow> Location" where
  "to_location document cur d = \<lparr>loc_uri = uri document, loc_range = convertRange cur (textSpan d)\<rparr>"

definition findDefinition ::
  "js_env \<Rightarrow> TextDocument \<Rightarrow> Position \<Rightarrow> js_state
     \<Rightarrow> (js_error + Location list option) \<times> js_state" where
  "findDefinition env document position st =
     (let st' = updateCurrentTextDocument env document st
      in case currentTextDocument st' of
           None \<Rightarrow> (Inl TypeError, st')
         | Some cur \<Rightarrow>
             (case getDefinitionAtPosition env st' (offsetAt cur position) of
                Some definition \<Rightarrow>
                  (Inr (Some (map (to_location document cur)
                                (filter (\<lambda>d. fileName d = FILE_NAME) definition))), st')
              | None \<Rightarrow> (Inr None, st')))"

definition findReferences ::
  "js_env \<Rightarrow> TextDocument \<Rightarrow> Position \<Rightarrow> js_state
     \<Rightarrow> (js_error + Location list) \<times> js_state" where
  "findReferences env document position st =
     (let st' = updateCurrentTextDocument env document st
      in case currentTextDocument st' of
           None \<Rightarrow> (Inl TypeError, st')
         | Some cur \<Rightarrow>
             (case getReferencesAtPosition env st' (offsetAt cur position) of
                Some references \<Rightarrow>
                  (Inr (map (to_location document cur)
                          (filter (\<lambda>d. fileName d = FILE_NAME) references)), st')
              | None \<Rightarrow> (Inr [], st')))"

text \<open>
  \<open>findDocumentSymbols\<close>: \<open>result\<close> and \<open>existing\<close> are the two locals that the closure
  \<open>collectSymbols\<close> updates. \<open>item.spans[0].start\<close> raises on an item without spans.
  \<open>collectChildren\<close> is the loop over \<open>childItems\<close>, and also the \<open>forEach\<close> over the
  top-level items, which passes no container label.
\<close>

record collect_state =
  result :: "SymbolInformation list"
  existing :: "string set"

definition show_start :: "TextSpan \<Rightarrow> string" where
  "show_start span = (case span_start span of None \<Rightarrow> ''undefined'' | Some n \<Rightarrow> show_nat n)"

text \<open>The key \<open>item.text + item.kind + item.spans[0].start\<close>, a string concatenation.\<close>

definition sig_of :: "string \<Rightarrow> string \<Rightarrow> TextSpan \<Rightarrow> string" where
  "sig_of t k span0 = t @ k @ show_start span0"

definition to_symbol ::
  "TextDocument \<Rightarrow> TextDocument \<Rightarrow> string \<Rightarrow> string \<Rightarrow> TextSpan \<Rightarrow> string option
     \<Rightarrow> SymbolInformation" where
  "to_symbol document cur t k span0 containerLabel =
     \<lparr>sym_name = t, sym_kind = convertSymbolKind k,
      sym_location = \<lparr>loc_uri = uri document, loc_range = convertRange cur span0\<rparr>,
      containerName = containerLabel\<rparr>"

fun collectSymbols ::
    "TextDocument \<Rightarrow> TextDocument \<Rightarrow> NavigationBarItem \<Rightarrow> string option \<Rightarrow> collect_state
       \<Rightarrow> js_error + collect_state"
  and collectChildren ::
    "TextDocument \<Rightarrow> TextDocument \<Rightarrow> NavigationBarItem list \<Rightarrow> string option \<Rightarrow> collect_state
       \<Rightarrow> js_error + collect_state" where
  "collectSymbols document cur (NavigationBarItem t k sp ch) containerLabel st =
     (case sp of
        [] \<Rightarrow> Inl TypeError
      | span0 # _ \<Rightarrow>
          (let sig = sig_of t k span0
           in if k \<noteq> ''script'' \<and> sig \<notin> existing st
              then collectChildren document cur ch (Some t)
                     \<lparr>result = result st @ [to_symbol document cur t k span0 containerLabel],
                      existing = insert sig (existing st)\<rparr>
              else collectChildren document cur ch containerLabel st))"
| "collectChildren document cur [] containerLabel st = Inr st"
| "collectChildren document cur (child # rest) containerLabel st =
     (case collectSymbols document cur child containerLabel st of
        Inl e \<Rightarrow> Inl e
      | Inr st' \<Rightarrow> collectChildren document cur rest containerLabel st')"

definition findDocumentSymbols ::
  "js_env \<Rightarrow> TextDocument \<Rightarrow> js_state \<Rightarrow> (js_error + SymbolInformation list) \<times> js_state" where
  "findDocumentSymbols env document st =
     (let st' = updateCurrentTextDocument env document st
      in case currentTextDocument st' of
           None \<Rightarrow> (Inl TypeError, st')
         | Some cur \<Rightarrow>
             (case getNavigationBarItems env st' of
                Some its \<Rightarrow>
                  (case collectChildren document cur its None \<lparr>result = [], existing = {}\<rparr> of
                     Inl e \<Rightarrow> (Inl e, st')
                   | Inr c \<Rightarrow> (Inr (result c), st'))
              | None \<Rightarrow> (Inr [], st')))"

definition js_format ::
  "js_env \<Rightarrow> TextDocument \<Rightarrow> Range \<Rightarrow> FormattingOptions \<Rightarrow> js_error + TextEdit list option" where
  "js_format env document rng formattingOption =
     (let text = getText document rng
      in if trim text \<noteq> []
         then (case format (prettier_format env) text ''babel'' formattingOption of
                 Inl e \<Rightarrow> Inl e
               | Inr formatted \<Rightarrow> Inr (Some [\<lparr>edit_range = rng, newText = formatted\<rparr>]))
         else Inr None)"

section \<open>The LESS mode (modes/lessMode.ts)\<close>

text \<open>
  The mode hands the embedded document to the stylesheet service of
  \<open>vscode-css-languageservice\<close>; \<open>'sheet\<close> is the parsed stylesheet and \<open>'i\<close> the
  service's completion item.
\<close>

record ('sheet, 'i) less_env =
  getEmbeddedDocument_less :: "TextDocument \<Rightarrow> TextDocument"
  parseStylesheet :: "TextDocument \<Rightarrow> 'sheet"
  less_service_doComplete :: "TextDocument \<Rightarrow> Position \<Rightarrow> 'sheet \<Rightarrow> 'i CompletionList"
  less_prettier_format :: formatter

definition less_doComplete ::
  "('sheet, 'i) less_env \<Rightarrow> TextDocument \<Rightarrow> Position \<Rightarrow> 'i CompletionList" where
  "less_doComplete env document position =
     (let embedded = getEmbeddedDocument_less env document;
          stylesheet = parseStylesheet env embedded
      in less_service_doComplete env embedded position stylesheet)"

definition less_format ::
  "('sheet, 'i) less_env \<Rightarrow> TextDocument \<Rightarrow> Range \<Rightarrow> FormattingOptions
     \<Rightarrow> js_error + TextEdit list option" where
  "less_format env document rng formattingOption =
     (let text = getText document rng
      in if trim text \<noteq> []
         then (case format (less_prettier_format env) text ''less'' formattingOption of
                 Inl e \<Rightarrow> Inl e
               | Inr formatted \<Rightarrow> Inr (Some [\<lparr>edit_range = rng, newText = formatted\<rparr>]))
         else Inr None)"

section \<open>Concrete inputs\<close>

definition demo_env :: lib_env where
  "demo_env = \<lparr>existsSync = (\<lambda>p. p = ''/tmp/my.d.ts''),
               readFileSync = (\<lambda>p. if p = ''/tmp/my.d.ts'' then Some ''declare var x;'' else None),
               path_join = (\<lambda>a b. a @ ''/'' @ b),
               JQUERY_PATH = ''/srv/lib/jquery.d.ts'',
               TYPESCRIPT_LIB_SOURCE = ''/srv/node_modules/typescript/lib''\<rparr>"

definition lib_initial :: lib_state where
  "lib_initial = \<lparr>contents = Map.empty, console = [], fs_trace = []\<rparr>"

definition demo_doc :: TextDocument where
  "demo_doc = \<lparr>uri = ''file:///w/a.blade.php'', version = 1,
               getText = (\<lambda>r. ''var x;''), getFullText = ''<script>var x;</script>'',
               offsetAt = (\<lambda>p. character p), positionAt = (\<lambda>n. \<lparr>line = 0, character = n\<rparr>)\<rparr>"

definition demo_js_env :: js_env where
  "demo_js_env = \<lparr>jsDocuments_get = (\<lambda>d. d\<lparr>getFullText := ''        var x;         ''\<rparr>),
                  getCompletionsAtPosition = (\<lambda>st n. None),
                  getDefinitionAtPosition = (\<lambda>st n. Some [\<lparr>fileName = FILE_NAME, textSpan = \<lparr>span_start = Some 12, span_length = Some 1\<rparr>\<rparr>,
                                                             \<lparr>fileName = ''jquery'', textSpan = \<lparr>span_start = Some 40, span_length = Some 1\<rparr>\<rparr>]),
                  getReferencesAtPosition = (\<lambda>st n. Some [\<lparr>fileName = ''jquery'', textSpan = \<lparr>span_start = Some 40, span_length = Some 1\<rparr>\<rparr>,
                                                             \<lparr>fileName = FILE_NAME, textSpan = \<lparr>span_start = Some 12, span_length = Some 1\<rparr>\<rparr>]),
                  getNavigationBarItems = (\<lambda>st. None),
                  getWordAtText = (\<lambda>s n. \<lparr>span_start = Some n, span_length = Some 0\<rparr>),
                  prettier_format = (\<lambda>text parser tabWidth useTabs.
                     if text = ''var ='' then Inl SyntaxError else Inr (''var x;'' @ [LF]))\<rparr>"

section \<open>Notions of the statements and further inputs\<close>

definition demo_options :: FormattingOptions where
  "demo_options = \<lparr>tabSize = 4, insertSpaces = True\<rparr>"

text \<open>A text in which every line feed is followed by \<open>ind\<close>: the joined lines without the first prefix.\<close>

primrec after_each_LF :: "string \<Rightarrow> string \<Rightarrow> string" where
  "after_each_LF ind [] = []"
| "after_each_LF ind (c # cs) = (if c = LF then LF # ind @ after_each_LF ind cs else c # after_each_LF ind cs)"

text \<open>
  The claim in its own words: every line of the formatter output, trailing blanks apart,
  is a line of the edit text when prefixed with exactly \<open>indent\<close>.
\<close>

definition spec_every_line_prefixed :: "string \<Rightarrow> string \<Rightarrow> string \<Rightarrow> bool" where
  "spec_every_line_prefixed indent out res \<longleftrightarrow>
     list_all (\<lambda>l. indent @ l \<in> set (split_on LF res)) (split_on LF (trimEnd out))"

text \<open>
  The content of a script element whose closing tag is indented by four spaces, and a
  formatter that answers with a fixed, formatted text.
\<close>

definition script_text :: string where
  "script_text = [LF] @ ''if(a){b}'' @ [LF] @ ''    ''"

definition script_formatter :: formatter where
  "script_formatter text parser tabWidth useTabs =
     Inr (''if (a) {'' @ [LF] @ ''    b;'' @ [LF] @ ''}'' @ [LF])"

definition blank_doc :: TextDocument where
  "blank_doc = \<lparr>uri = ''file:///w/b.blade.php'', version = 7,
               getText = (\<lambda>r. [SPACE, LF, TAB]), getFullText = ''<script> </script>'',
               offsetAt = (\<lambda>p. character p), positionAt = (\<lambda>n. \<lparr>line = 0, character = n\<rparr>)\<rparr>"

definition demo_less_env :: "(unit, string) less_env" where
  "demo_less_env = \<lparr>getEmbeddedDocument_less = (\<lambda>d. d),
                    parseStylesheet = (\<lambda>d. ()),
                    less_service_doComplete = (\<lambda>d p sh. \<lparr>isIncomplete = False, items = []\<rparr>),
                    less_prettier_format = (\<lambda>text parser tabWidth useTabs.
                       if text = ''a {'' then Inl SyntaxError else Inr (''a {'' @ [LF] @ ''}'' @ [LF]))\<rparr>"

text \<open>
  Documents whose selected text is a stylesheet, a script that the formatter cannot
  parse, and a stylesheet that it cannot parse.
\<close>

definition less_doc :: TextDocument where
  "less_doc = \<lparr>uri = ''file:///w/c.blade.php'', version = 2,
               getText = (\<lambda>r. ''a{}''), getFullText = ''<style>a{}</style>'',
               offsetAt = (\<lambda>p. character p), positionAt = (\<lambda>n. \<lparr>line = 0, character = n\<rparr>)\<rparr>"

definition broken_doc :: TextDocument where
  "broken_doc = \<lparr>uri = ''file:///w/d.blade.php'', version = 4,
               getText = (\<lambda>r. ''var =''), getFullText = ''<script>var =</script>'',
               offsetAt = (\<lambda>p. character p), positionAt = (\<lambda>n. \<lparr>line = 0, character = n\<rparr>)\<rparr>"

definition broken_less_doc :: TextDocument where
  "broken_less_doc = \<lparr>uri = ''file:///w/e.blade.php'', version = 5,
               getText = (\<lambda>r. ''a {''), getFullText = ''<style>a {</style>'',
               offsetAt = (\<lambda>p. character p), positionAt = (\<lambda>n. \<lparr>line = 0, character = n\<rparr>)\<rparr>"

definition demo_range :: Range where
  "demo_range = \<lparr>range_start = \<lparr>line = 0, character = 8\<rparr>, range_end = \<lparr>line = 0, character = 14\<rparr>\<rparr>"

text \<open>
  An emitted item: its text, its kind, its first span and the container label it was
  collected under. \<open>collected\<close> relates the two locals of \<open>findDocumentSymbols\<close> to the
  items emitted so far; a \<open>leaf\<close> is an item with one span and no children.
\<close>

type_synonym emitted = "string \<times> string \<times> TextSpan \<times> string option"

definition emitted_symbol :: "TextDocument \<Rightarrow> TextDocument \<Rightarrow> emitted \<Rightarrow> SymbolInformation" where
  "emitted_symbol document cur e = (case e of (t, k, span0, label) \<Rightarrow> to_symbol document cur t k span0 label)"

definition emitted_sig :: "emitted \<Rightarrow> string" where
  "emitted_sig e = (case e of (t, k, span0, label) \<Rightarrow> sig_of t k span0)"

definition emitted_key :: "emitted \<Rightarrow> string \<times> string \<times> nat option" where
  "emitted_key e = (case e of (t, k, span0, label) \<Rightarrow> (t, k, span_start span0))"

definition emitted_kind :: "emitted \<Rightarrow> string" where
  "emitted_kind e = (case e of (t, k, span0, label) \<Rightarrow> k)"

definition collected :: "TextDocument \<Rightarrow> TextDocument \<Rightarrow> collect_state \<Rightarrow> emitted list \<Rightarrow> bool" where
  "collected document cur st es \<longleftrightarrow>
     result st = map (emitted_symbol document cur) es
     \<and> existing st = set (map emitted_sig es)
     \<and> distinct (map emitted_sig es)
     \<and> list_all (\<lambda>e. emitted_kind e \<noteq> ''script'') es"

definition leaf :: "string \<times> string \<times> TextSpan \<Rightarrow> NavigationBarItem" where
  "leaf c = (case c of (t, k, span0) \<Rightarrow> NavigationBarItem t k [span0] [])"

definition leaf_sig :: "string \<times> string \<times> TextSpan \<Rightarrow> string" where
  "leaf_sig c = (case c of (t, k, span0) \<Rightarrow> sig_of t k span0)"

definition leaf_symbol ::
  "TextDocument \<Rightarrow> TextDocument \<Rightarrow> string option \<Rightarrow> string \<times> string \<times> TextSpan \<Rightarrow> SymbolInformation" where
  "leaf_symbol document cur label c = (case c of (t, k, span0) \<Rightarrow> to_symbol document cur t k span0 label)"

definition span_at :: "nat \<Rightarrow> nat \<Rightarrow> TextSpan" where
  "span_at s l = \<lparr>span_start = Some s, span_length = Some l\<rparr>"

text \<open>
  The navigation bar of \<open>class C { m() {} }\<close>: the script item with the class as its
  child, and the class as an item of its own with its method.
\<close>

definition nav_items :: "NavigationBarItem list" where
  "nav_items =
     [NavigationBarItem ''<global>'' ''script'' [span_at 0 40]
        [NavigationBarItem ''C'' ''class'' [span_at 0 40] []],
      NavigationBarItem ''C'' ''class'' [span_at 0 40]
        [NavigationBarItem ''m'' ''method'' [span_at 10 20] []]]"

definition nav_env :: js_env where
  "nav_env = demo_js_env\<lparr>getNavigationBarItems := (\<lambda>st. Some nav_items)\<rparr>"

definition nav_cur :: TextDocument where
  "nav_cur = jsDocuments_get demo_js_env demo_doc"

definition sym_C :: SymbolInformation where
  "sym_C = \<lparr>sym_name = ''C'', sym_kind = SkClass,
     sym_location = \<lparr>loc_uri = ''file:///w/a.blade.php'',
       loc_range = \<lparr>range_start = \<lparr>line = 0, character = 0\<rparr>, range_end = \<lparr>line = 0, character = 40\<rparr>\<rparr>\<rparr>,
     containerName = None\<rparr>"

definition sym_m :: SymbolInformation where
  "sym_m = \<lparr>sym_name = ''m'', sym_kind = SkMethod,
     sym_location = \<lparr>loc_uri = ''file:///w/a.blade.php'',
       loc_range = \<lparr>range_start = \<lparr>line = 0, character = 10\<rparr>, range_end = \<lparr>line = 0, character = 30\<rparr>\<rparr>\<rparr>,
     containerName = None\<rparr>"

text \<open>
  Two items of one name and one start offset whose analyzer kinds, \<open>var\<close> and \<open>const\<close>,
  are both shown as a variable.
\<close>

definition twin_items :: "NavigationBarItem list" where
  "twin_items =
     [NavigationBarItem ''x'' ''var'' [span_at 0 5] [],
      NavigationBarItem ''x'' ''const'' [span_at 0 5] []]"

definition twin_env :: js_env where
  "twin_env = demo_js_env\<lparr>getNavigationBarItems := (\<lambda>st. Some twin_items)\<rparr>"

definition sym_x :: SymbolInformation where
  "sym_x = \<lparr>sym_name = ''x'', sym_kind = SkVariable,
     sym_location = \<lparr>loc_uri = ''file:///w/a.blade.php'',
       loc_range = \<lparr>range_start = \<lparr>line = 0, character = 0\<rparr>, range_end = \<lparr>line = 0, character = 5\<rparr>\<rparr>\<rparr>,
     containerName = None\<rparr>"

text \<open>A dot read as a path separator, and the filter of line 61.\<close>

definition dot_to_slash :: "char \<Rightarrow> char" where
  "dot_to_slash c = (if c = CHR ''.'' then CHR ''/'' else c)"

definition spans_cursor :: "nat \<Rightarrow> IncludePart \<Rightarrow> bool" where
  "spans_cursor ch part \<longleftrightarrow> part_start part < ch \<and> part_end part > ch"


text \<open>
  A document whose line 2 includes the template \<open>layouts.app\<close> and whose line 5 extends
  \<open>admin.main\<close> with a capital letter and double quotes. Of the three workspace folders
  the second and the third are prefixes of its uri. The settings carry the views path;
  the bare options have the empty settings.
\<close>

definition include_doc :: TextDocument where
  "include_doc = \<lparr>uri = ''file:///w/resources/views/home.blade.php'', version = 3,
     getText = (\<lambda>r. if line (range_start r) = 2
                       then ''  @include('' @ [CHR 0x27] @ ''layouts.app'' @ [CHR 0x27] @ '')'' @ [LF]
                     else if line (range_start r) = 5
                       then ''<div>@Extends('' @ [CHR 0x22] @ ''admin.main'' @ [CHR 0x22] @ '')'' @ [LF]
                     else []),
     getFullText = [],
     offsetAt = (\<lambda>p. character p), positionAt = (\<lambda>n. \<lparr>line = 0, character = n\<rparr>)\<rparr>"

definition include_folders :: "WorkspaceFolder list" where
  "include_folders = [\<lparr>folder_uri = ''file:///other'', folder_name = ''other''\<rparr>,
                      \<lparr>folder_uri = ''file:///w'', folder_name = ''w''\<rparr>,
                      \<lparr>folder_uri = ''file:///w/resources'', folder_name = ''resources''\<rparr>]"

definition include_options :: PeekOptions where
  "include_options =
     \<lparr>settings = \<lparr>blade = Some \<lparr>views = Some \<lparr>views_path = ''resources/views''\<rparr>\<rparr>\<rparr>,
      workspaceFolders = Some include_folders\<rparr>"

definition bare_options :: PeekOptions where
  "bare_options = \<lparr>settings = \<lparr>blade = None\<rparr>, workspaceFolders = Some include_folders\<rparr>"

definition include_part :: IncludePart where
  "include_part = \<lparr>part_start = 2, part_end = 24,
     part_text = ''@include('' @ [CHR 0x27] @ ''layouts.app'' @ [CHR 0x27],
     template = ''layouts.app''\<rparr>"

definition extends_part :: IncludePart where
  "extends_part = \<lparr>part_start = 5, part_end = 26,
     part_text = ''@Extends('' @ [CHR 0x22] @ ''admin.main'' @ [CHR 0x22],
     template = ''admin.main''\<rparr>"

section \<open>The library loader: failed reads and the resolution order\<close>

text \<open>
  A failed read of a name that is not yet an own property of \<open>contents\<close> and is not
  \<open>__proto__\<close>: the call returns the empty string, logs one line, stores the empty
  string, and a later call for the name, on any file system, returns the empty string
  and leaves the state, so also the trace of file-system calls, as it is.
\<close>

lemma loadLibrary_failure_memoized:
  assumes "obj_get (contents st) name = None"
    and "readFileSync env (fst (resolve_lib env name)) = None"
    and "name \<noteq> ''__proto__''"
  shows "fst (loadLibrary env name st) = []"
    and "console (snd (loadLibrary env name st))
           = console st @ [load_failure_message name (fst (resolve_lib env name))]"
    and "contents (snd (loadLibrary env name st)) name = Some []"
    and "loadLibrary env' name (snd (loadLibrary env name st)) = ([], snd (loadLibrary env name st))"
  using assms
  by (auto simp: loadLibrary_def obj_get_def obj_set_def Let_def split: prod.splits option.splits)

text \<open>
  C2. A library whose file cannot be read is logged once, served as the empty string and
  memoized, so that a second call does not read the file system again. For the name
  \<open>__proto__\<close> the code does not get there: the assignment to \<open>contents\<close> stores nothing,
  and the second call probes and reads the file system and logs a second time.
\<close>

theorem loadLibrary_proto_reads_again:
  "(let (c1, s1) = loadLibrary demo_env ''__proto__'' lib_initial;
        (c2, s2) = loadLibrary demo_env ''__proto__'' s1
    in c1 = [] \<and> c2 = [] \<and> contents s1 ''__proto__'' = None
       \<and> fs_trace s1 = [Exists ''__proto__'', Read ''/srv/node_modules/typescript/lib/__proto__'']
       \<and> fs_trace s2 = fs_trace s1 @ fs_trace s1
       \<and> length (console s1) = 1 \<and> length (console s2) = 2)"
  by (simp add: loadLibrary_def obj_get_def obj_set_def resolve_lib_def demo_env_def lib_initial_def Let_def)

text \<open>
  C3. For a name that is not memoized, the path that is read is the jquery definitions
  file when the name is \<open>jquery\<close> (without a look at the file system), else the name
  itself when it exists as a path, else the name joined to the TypeScript lib folder.
\<close>

theorem loadLibrary_resolution_order:
  assumes "obj_get (contents st) name = None"
  shows "fs_trace (snd (loadLibrary env name st)) =
           fs_trace st @
           (if name = ''jquery'' then [Read (JQUERY_PATH env)]
            else if existsSync env name then [Exists name, Read name]
            else [Exists name, Read (path_join env (TYPESCRIPT_LIB_SOURCE env) name)])"
  using assms
  by (auto simp: loadLibrary_def resolve_lib_def Let_def split: prod.splits option.splits)

theorem loadLibrary_resolution_order_witness:
  "obj_get (contents lib_initial) ''jquery'' = None
   \<and> fs_trace (snd (loadLibrary demo_env ''jquery'' lib_initial)) = [Read ''/srv/lib/jquery.d.ts'']
   \<and> obj_get (contents lib_initial) ''/tmp/my.d.ts'' = None
   \<and> fs_trace (snd (loadLibrary demo_env ''/tmp/my.d.ts'' lib_initial))
       = [Exists ''/tmp/my.d.ts'', Read ''/tmp/my.d.ts'']
   \<and> obj_get (contents lib_initial) ''lib.es6.d.ts'' = None
   \<and> fs_trace (snd (loadLibrary demo_env ''lib.es6.d.ts'' lib_initial))
       = [Exists ''lib.es6.d.ts'', Read ''/srv/node_modules/typescript/lib/lib.es6.d.ts'']"
  using loadLibrary_resolution_order [where env = demo_env and name = "''jquery''" and st = lib_initial]
    loadLibrary_resolution_order [where env = demo_env and name = "''/tmp/my.d.ts''" and st = lib_initial]
    loadLibrary_resolution_order [where env = demo_env and name = "''lib.es6.d.ts''" and st = lib_initial]
  by (simp add: obj_get_def demo_env_def lib_initial_def)

section \<open>The JavaScript mode: the script-file version\<close>

lemma update_same:
  "tracks st (uri doc) (version doc) \<Longrightarrow> updateCurrentTextDocument env doc st = st"
  by (auto simp: tracks_def updateCurrentTextDocument_def split: option.splits)

lemma update_tracks:
  assumes "\<forall>d. uri (jsDocuments_get env d) = uri d \<and> version (jsDocuments_get env d) = version d"
  shows "tracks (updateCurrentTextDocument env doc st) (uri doc) (version doc)"
  using assms by (auto simp: tracks_def updateCurrentTextDocument_def split: option.splits)

lemma update_counter:
  "scriptFileVersion (updateCurrentTextDocument env doc st) = scriptFileVersion st
   \<or> scriptFileVersion (updateCurrentTextDocument env doc st) = scriptFileVersion st + 1"
  by (simp add: updateCurrentTextDocument_def)

lemma requests_same:
  "tracks st u v \<Longrightarrow> \<forall>d \<in> set docs. uri d = u \<and> version d = v \<Longrightarrow> requests env docs st = st"
proof (induction docs)
  case Nil
  show ?case by simp
next
  case (Cons d docs)
  have "tracks st (uri d) (version d)"
    using Cons.prems by simp
  then have same: "updateCurrentTextDocument env d st = st"
    by (rule update_same)
  have rest: "\<forall>d \<in> set docs. uri d = u \<and> version d = v"
    using Cons.prems(2) by simp
  have "requests env (d # docs) st = requests env docs (updateCurrentTextDocument env d st)"
    by simp
  also have "\<dots> = requests env docs st"
    by (simp only: same)
  also have "\<dots> = st"
    using Cons.prems(1) rest by (rule Cons.IH)
  finally show ?case .
qed

lemma requests_mono: "scriptFileVersion st \<le> scriptFileVersion (requests env docs st)"
proof (induction docs arbitrary: st)
  case Nil
  show ?case by simp
next
  case (Cons d docs)
  have "scriptFileVersion st \<le> scriptFileVersion (updateCurrentTextDocument env d st)"
    by (simp add: updateCurrentTextDocument_def)
  also have "\<dots> \<le> scriptFileVersion (requests env docs (updateCurrentTextDocument env d st))"
    by (rule Cons.IH)
  finally show ?case by simp
qed

text \<open>
  C4. The script-file version never decreases over any sequence of requests; one request
  leaves it or adds one, and adds one only when no document is tracked with the uri and
  version of the incoming one. When the cache hands back documents under the uri and
  version they were asked for, requests that all carry the same uri and version bump the
  version at most once and fetch the embedded document at most once, and not at all when
  that uri and version are already tracked.
\<close>

theorem scriptFileVersion_guarded:
  "scriptFileVersion st \<le> scriptFileVersion (requests env docs st)
   \<and> (scriptFileVersion (updateCurrentTextDocument env doc st) = scriptFileVersion st
       \<or> scriptFileVersion (updateCurrentTextDocument env doc st) = scriptFileVersion st + 1
          \<and> \<not> tracks st (uri doc) (version doc))
   \<and> ((\<forall>d. uri (jsDocuments_get env d) = uri d \<and> version (jsDocuments_get env d) = version d)
        \<and> (\<forall>d \<in> set same. uri d = u \<and> version d = v)
       \<longrightarrow> scriptFileVersion (requests env same st) \<le> scriptFileVersion st + 1
           \<and> length (fetched (requests env same st)) \<le> length (fetched st) + 1
           \<and> (tracks st u v \<longrightarrow> requests env same st = st))"
proof (intro conjI impI)
  show "scriptFileVersion st \<le> scriptFileVersion (requests env docs st)"
    by (rule requests_mono)
next
  show "scriptFileVersion (updateCurrentTextDocument env doc st) = scriptFileVersion st
        \<or> scriptFileVersion (updateCurrentTextDocument env doc st) = scriptFileVersion st + 1
           \<and> \<not> tracks st (uri doc) (version doc)"
    by (auto simp: updateCurrentTextDocument_def tracks_def split: option.splits)
next
  assume h: "(\<forall>d. uri (jsDocuments_get env d) = uri d \<and> version (jsDocuments_get env d) = version d)
             \<and> (\<forall>d \<in> set same. uri d = u \<and> version d = v)"
  have step: "requests env same st = st \<or> requests env same st = updateCurrentTextDocument env (hd same) st"
  proof (cases same)
    case Nil
    then show ?thesis by simp
  next
    case (Cons d ds)
    have "tracks (updateCurrentTextDocument env d st) u v"
      using h Cons update_tracks [of env d st] by auto
    then have "requests env ds (updateCurrentTextDocument env d st) = updateCurrentTextDocument env d st"
      using h Cons by (intro requests_same [where u = u and v = v]) auto
    then show ?thesis using Cons by simp
  qed
  show "scriptFileVersion (requests env same st) \<le> scriptFileVersion st + 1"
    using step by (auto simp: updateCurrentTextDocument_def)
  show "length (fetched (requests env same st)) \<le> length (fetched st) + 1"
    using step by (auto simp: updateCurrentTextDocument_def)
  show "requests env same st = st" if "tracks st u v"
    using that h by (intro requests_same [where u = u and v = v]) auto
qed

theorem scriptFileVersion_guarded_witness:
  "(\<forall>d. uri (jsDocuments_get demo_js_env d) = uri d \<and> version (jsDocuments_get demo_js_env d) = version d)
   \<and> uri demo_doc = ''file:///w/a.blade.php'' \<and> version demo_doc = 1
   \<and> scriptFileVersion (requests demo_js_env [demo_doc, demo_doc, demo_doc] js_initial) = 1
   \<and> fetched (requests demo_js_env [demo_doc, demo_doc, demo_doc] js_initial) = [(''file:///w/a.blade.php'', 1)]
   \<and> \<not> tracks js_initial ''file:///w/a.blade.php'' 1"
  using scriptFileVersion_guarded [where env = demo_js_env and st = js_initial
      and same = "[demo_doc, demo_doc, demo_doc]" and u = "''file:///w/a.blade.php''" and v = 1
      and doc = demo_doc and docs = "[]"]
  by (simp add: demo_js_env_def demo_doc_def js_initial_def updateCurrentTextDocument_def tracks_def)

section \<open>Re-indenting formatter output\<close>

lemma split_on_not_Nil: "split_on c s \<noteq> []"
  by (induction s) (auto split: list.splits)

lemma join_map_split:
  "(case split_on LF s of [] \<Rightarrow> True
    | l # ls \<Rightarrow> join_with [LF] (map (\<lambda>l. ind @ l) ((p @ l) # ls)) = ind @ p @ after_each_LF ind s)"
proof (induction s arbitrary: p)
  case Nil
  show ?case by simp
next
  case (Cons x xs)
  obtain l ls where sp: "split_on LF xs = l # ls"
    using split_on_not_Nil [of LF xs] by (cases "split_on LF xs") auto
  show ?case
  proof (cases "x = LF")
    case True
    have "join_with [LF] (map (\<lambda>l. ind @ l) (([] @ l) # ls)) = ind @ [] @ after_each_LF ind xs"
      using sp Cons.IH [where p = "[]"] by simp
    then show ?thesis using True sp by simp
  next
    case False
    have "join_with [LF] (map (\<lambda>l. ind @ l) (((p @ [x]) @ l) # ls)) = ind @ (p @ [x]) @ after_each_LF ind xs"
      using sp Cons.IH [where p = "p @ [x]"] by simp
    then show ?thesis using False sp by simp
  qed
qed

lemma reindent_eq:
  "join_with [LF] (map (\<lambda>l. ind @ l) (split_on LF s)) = ind @ after_each_LF ind s"
proof -
  obtain l ls where sp: "split_on LF s = l # ls"
    using split_on_not_Nil [of LF s] by (cases "split_on LF s") auto
  show ?thesis using sp join_map_split [where s = s and ind = ind and p = "[]"] by simp
qed

lemma after_each_LF_append:
  "after_each_LF ind (a @ b) = after_each_LF ind a @ after_each_LF ind b"
  by (induction a) auto

lemma after_each_LF_white:
  "list_all is_white_space ind \<Longrightarrow> list_all is_white_space w \<Longrightarrow> list_all is_white_space (after_each_LF ind w)"
  by (induction w) auto

lemma after_each_LF_last:
  "a \<noteq> [] \<Longrightarrow> last a \<noteq> LF \<Longrightarrow> after_each_LF ind a \<noteq> [] \<and> last (after_each_LF ind a) = last a"
  by (induction a) (auto split: if_splits)

lemma trimEnd_white:
  assumes "list_all is_white_space w"
  shows "trimEnd (a @ w) = trimEnd a"
proof -
  have "dropWhile is_white_space (rev w @ rev a) = dropWhile is_white_space (rev a)"
    using assms by (intro dropWhile_append2) (simp add: list_all_iff)
  then show ?thesis by (simp add: trimEnd_def)
qed

lemma trimEnd_all_white: "list_all is_white_space w \<Longrightarrow> trimEnd w = []"
  using trimEnd_white [of w "[]"] by (simp add: trimEnd_def)

lemma trimEnd_id: "a \<noteq> [] \<Longrightarrow> \<not> is_white_space (last a) \<Longrightarrow> trimEnd a = a"
  by (cases a rule: rev_cases) (auto simp: trimEnd_def)

lemma trimEnd_decomp: "\<exists>w. s = trimEnd s @ w \<and> list_all is_white_space w"
proof -
  have "rev s = takeWhile is_white_space (rev s) @ dropWhile is_white_space (rev s)"
    by simp
  then have "s = rev (dropWhile is_white_space (rev s)) @ rev (takeWhile is_white_space (rev s))"
    by (metis rev_append rev_rev_ident)
  moreover have "list_all is_white_space (rev (takeWhile is_white_space (rev s)))"
    by (simp add: list_all_iff) (meson set_takeWhileD)
  ultimately show ?thesis unfolding trimEnd_def by blast
qed

lemma trimEnd_last: "trimEnd s \<noteq> [] \<Longrightarrow> \<not> is_white_space (last (trimEnd s))"
  unfolding trimEnd_def
  by (metis hd_dropWhile last_rev rev_is_Nil_conv)

lemma LF_white: "is_white_space LF"
  by (simp add: is_white_space_def LF_def)

lemma trimEnd_reindent:
  assumes "list_all is_white_space ind"
  shows "trimEnd (ind @ after_each_LF ind out)
           = (if trimEnd out = [] then [] else ind @ after_each_LF ind (trimEnd out))"
proof -
  obtain w where w: "out = trimEnd out @ w" "list_all is_white_space w"
    using trimEnd_decomp by blast
  have ww: "list_all is_white_space (after_each_LF ind w)"
    using assms w(2) by (rule after_each_LF_white)
  have eq: "ind @ after_each_LF ind out = (ind @ after_each_LF ind (trimEnd out)) @ after_each_LF ind w"
    using w(1) after_each_LF_append [of ind "trimEnd out" w] by simp
  show ?thesis
  proof (cases "trimEnd out = []")
    case True
    have "list_all is_white_space (ind @ after_each_LF ind w)"
      using assms ww by simp
    then have "trimEnd (ind @ after_each_LF ind w) = []"
      by (rule trimEnd_all_white)
    then show ?thesis using True eq by simp
  next
    case False
    let ?t = "trimEnd out"
    have nw: "\<not> is_white_space (last ?t)"
      using False by (rule trimEnd_last)
    then have "last ?t \<noteq> LF"
      using LF_white by auto
    then have l: "after_each_LF ind ?t \<noteq> [] \<and> last (after_each_LF ind ?t) = last ?t"
      using False after_each_LF_last by blast
    have "trimEnd ((ind @ after_each_LF ind ?t) @ after_each_LF ind w) = trimEnd (ind @ after_each_LF ind ?t)"
      using ww by (rule trimEnd_white)
    also have "\<dots> = ind @ after_each_LF ind ?t"
      using l nw by (intro trimEnd_id) auto
    finally show ?thesis using False eq by simp
  qed
qed

lemma exec_tail_Some:
  "exec_tail s = Some t \<Longrightarrow> (\<exists>pre r. s = pre @ t \<and> t = LF # r \<and> tail_matches r)"
proof (induction s)
  case Nil
  then show ?case by simp
next
  case (Cons c r)
  show ?case
  proof (cases "c = LF \<and> tail_matches r")
    case True
    then have "t = c # r" using Cons.prems by simp
    then show ?thesis using True by auto
  next
    case False
    then have "exec_tail r = Some t" using Cons.prems by auto
    then obtain pre r' where "r = pre @ t" "t = LF # r'" "tail_matches r'"
      using Cons.IH by blast
    then have "c # r = (c # pre) @ t \<and> t = LF # r' \<and> tail_matches r'" by simp
    then show ?thesis by blast
  qed
qed

lemma tail_matches_shape:
  "tail_matches r \<Longrightarrow> \<exists>blanks. list_all is_blank blanks \<and> (r = blanks \<or> r = CR # blanks)"
  by (cases r) (auto simp: tail_matches_def split: if_splits)

lemma tagIndent_shape:
  "tagIndent_of text = []
   \<or> (\<exists>blanks. list_all is_blank blanks
        \<and> (tagIndent_of text = LF # blanks \<or> tagIndent_of text = LF # CR # blanks))"
proof (cases "exec_tail text")
  case None
  then show ?thesis by (simp add: tagIndent_of_def get_0_def)
next
  case (Some t)
  then obtain pre r where "text = pre @ t" "t = LF # r" "tail_matches r"
    using exec_tail_Some by blast
  moreover have "tagIndent_of text = t"
    using Some by (simp add: tagIndent_of_def get_0_def)
  ultimately show ?thesis using tail_matches_shape [of r] by auto
qed

lemma tagIndent_suffix: "\<exists>pre. text = pre @ tagIndent_of text"
proof (cases "exec_tail text")
  case None
  then show ?thesis by (simp add: tagIndent_of_def get_0_def)
next
  case (Some t)
  then show ?thesis using exec_tail_Some [of "text" t] by (auto simp: tagIndent_of_def get_0_def)
qed

lemma blank_white: "is_blank c \<Longrightarrow> is_white_space c"
  by (auto simp: is_blank_def is_white_space_def)

lemma intdent_white: "list_all is_white_space (intdent_of text opts)"
proof -
  have cr: "is_white_space CR" by (simp add: is_white_space_def CR_def)
  have sp: "is_white_space SPACE" by (simp add: is_white_space_def SPACE_def)
  have tb: "is_white_space TAB" by (simp add: is_white_space_def TAB_def)
  have "list_all is_white_space (tagIndent_of text)"
    using tagIndent_shape [of "text"] cr LF_white blank_white by (auto simp: list_all_iff)
  then have "list_all is_white_space (prefixIndent_of text)"
    by (simp add: prefixIndent_of_def list_all_iff)
  moreover have "list_all is_white_space (repeat [SPACE] n)" for n
    using sp by (induction n) (auto simp: repeat_def)
  ultimately show ?thesis using tb by (simp add: intdent_of_def)
qed

lemma tail_matches_no_LF:
  assumes "tail_matches x"
  shows "LF \<notin> set x"
proof -
  obtain blanks where b: "list_all is_blank blanks" "x = blanks \<or> x = CR # blanks"
    using assms tail_matches_shape by blast
  have "\<not> is_blank LF" "CR \<noteq> LF"
    by (simp_all add: is_blank_def LF_def CR_def)
  then have "LF \<notin> set blanks" "LF \<notin> set (CR # blanks)"
    using b(1) by (auto simp: list_all_iff)
  then show ?thesis using b(2) by blast
qed

lemma exec_tail_last:
  "tail_matches r \<Longrightarrow> exec_tail (pre @ LF # r) = Some (LF # r)"
proof (induction pre)
  case Nil
  then show ?case by simp
next
  case (Cons c pre)
  have "\<not> tail_matches (pre @ LF # r)"
    using tail_matches_no_LF [of "pre @ LF # r"] by auto
  then show ?case using Cons by simp
qed

lemma tagIndent_of_tail:
  assumes "set blanks \<subseteq> {CHR 0x20, CHR 0x09}"
  shows "tagIndent_of (pre @ CHR 0x0A # blanks) = CHR 0x0A # blanks"
    and "tagIndent_of (pre @ CHR 0x0A # CHR 0x0D # blanks) = CHR 0x0A # CHR 0x0D # blanks"
proof -
  have b: "list_all is_blank blanks"
    using assms by (auto simp: list_all_iff is_blank_def)
  then have "tail_matches blanks"
    by (cases blanks) (auto simp: tail_matches_def is_blank_def CR_def)
  then show "tagIndent_of (pre @ CHR 0x0A # blanks) = CHR 0x0A # blanks"
    using exec_tail_last [of blanks pre] by (simp add: tagIndent_of_def get_0_def LF_def)
  have "tail_matches (CR # blanks)"
    using b by (simp add: tail_matches_def)
  then show "tagIndent_of (pre @ CHR 0x0A # CHR 0x0D # blanks) = CHR 0x0A # CHR 0x0D # blanks"
    using exec_tail_last [of "CR # blanks" pre] by (simp add: tagIndent_of_def get_0_def LF_def CR_def)
qed

lemma intdent_unfold:
  "intdent_of sel opts
     = filter (\<lambda>c. c \<noteq> LF) (tagIndent_of sel)
       @ (if insertSpaces opts then replicate (tabSize opts) SPACE else [TAB])"
proof -
  have "repeat [SPACE] n = replicate n SPACE" for n
    by (induction n) (auto simp: repeat_def)
  then show ?thesis
    by (simp add: intdent_of_def prefixIndent_of_def)
qed

lemma intdent_of_tail:
  assumes "set blanks \<subseteq> {CHR 0x20, CHR 0x09}"
  shows "intdent_of (pre @ CHR 0x0A # blanks) opts
           = blanks @ (if insertSpaces opts then replicate (tabSize opts) (CHR 0x20) else [CHR 0x09])"
    and "intdent_of (pre @ CHR 0x0A # CHR 0x0D # blanks) opts
           = CHR 0x0D # blanks @ (if insertSpaces opts then replicate (tabSize opts) (CHR 0x20) else [CHR 0x09])"
proof -
  have "filter (\<lambda>c. c \<noteq> LF) blanks = blanks"
    using assms by (auto simp: filter_id_conv LF_def)
  then show "intdent_of (pre @ CHR 0x0A # blanks) opts
           = blanks @ (if insertSpaces opts then replicate (tabSize opts) (CHR 0x20) else [CHR 0x09])"
    and "intdent_of (pre @ CHR 0x0A # CHR 0x0D # blanks) opts
           = CHR 0x0D # blanks @ (if insertSpaces opts then replicate (tabSize opts) (CHR 0x20) else [CHR 0x09])"
    using tagIndent_of_tail [OF assms, of pre]
    by (simp_all add: intdent_unfold LF_def SPACE_def TAB_def)
qed

lemma format_value:
  assumes "prettier sel parser (tabSize opts) (\<not> insertSpaces opts) = Inr out"
  shows "format prettier sel parser opts =
     Inr ([LF]
          @ (if trimEnd out = [] then []
             else join_with [LF] (map (\<lambda>l. intdent_of sel opts @ l) (split_on LF (trimEnd out))))
          @ tagIndent_of sel)"
proof -
  let ?ind = "intdent_of sel opts"
  have "trimEnd (join_with [LF] (map (\<lambda>l. ?ind @ l) (split_on LF out)))
          = (if trimEnd out = [] then []
             else join_with [LF] (map (\<lambda>l. ?ind @ l) (split_on LF (trimEnd out))))"
    using trimEnd_reindent [OF intdent_white, where out = "out" and text1 = "sel" and opts1 = "opts"]
    by (simp add: reindent_eq)
  then show ?thesis
    using assms by (simp add: format_def Let_def)
qed

text \<open>
  C1, as the code has it. When the formatter raises, so does \<open>format\<close>. When it returns
  an output, the replacement text is a line feed, then the output without its trailing
  white space, every line of it prefixed with \<open>intdent\<close>, then the trailing run of the
  selected text. That run is the last line feed of the selected text with an optional
  carriage return and the spaces and tabs that end the text, whenever the text ends so,
  and nothing otherwise; \<open>intdent\<close> is the run without its line feed followed by one more
  indentation unit, \<open>tabSize\<close> spaces or one tab. An output of white space only leaves
  the line feed and the run.
\<close>

theorem format_reindents:
  "(prettier sel parser (tabSize opts) (\<not> insertSpaces opts) = Inl e
      \<longrightarrow> format prettier sel parser opts = Inl e)
   \<and> (prettier sel parser (tabSize opts) (\<not> insertSpaces opts) = Inr out
      \<longrightarrow> format prettier sel parser opts =
            Inr ([LF]
                 @ (if trimEnd out = [] then []
                    else join_with [LF] (map (\<lambda>l. intdent_of sel opts @ l) (split_on LF (trimEnd out))))
                 @ tagIndent_of sel))
   \<and> intdent_of sel opts
       = filter (\<lambda>c. c \<noteq> LF) (tagIndent_of sel)
         @ (if insertSpaces opts then replicate (tabSize opts) SPACE else [TAB])
   \<and> (\<exists>pre. sel = pre @ tagIndent_of sel)
   \<and> (tagIndent_of sel = []
       \<or> (\<exists>blanks. list_all is_blank blanks
            \<and> (tagIndent_of sel = LF # blanks \<or> tagIndent_of sel = LF # CR # blanks)))
   \<and> (set blanks \<subseteq> {CHR 0x20, CHR 0x09}
      \<longrightarrow> tagIndent_of (pre @ CHR 0x0A # blanks) = CHR 0x0A # blanks
          \<and> tagIndent_of (pre @ CHR 0x0A # CHR 0x0D # blanks) = CHR 0x0A # CHR 0x0D # blanks
          \<and> intdent_of (pre @ CHR 0x0A # blanks) opts
              = blanks @ (if insertSpaces opts then replicate (tabSize opts) (CHR 0x20) else [CHR 0x09])
          \<and> intdent_of (pre @ CHR 0x0A # CHR 0x0D # blanks) opts
              = CHR 0x0D # blanks
                @ (if insertSpaces opts then replicate (tabSize opts) (CHR 0x20) else [CHR 0x09]))"
proof (intro conjI impI)
  assume "prettier sel parser (tabSize opts) (\<not> insertSpaces opts) = Inl e"
  then show "format prettier sel parser opts = Inl e"
    by (simp add: format_def)
next
  assume "prettier sel parser (tabSize opts) (\<not> insertSpaces opts) = Inr out"
  then show "format prettier sel parser opts =
            Inr ([LF]
                 @ (if trimEnd out = [] then []
                    else join_with [LF] (map (\<lambda>l. intdent_of sel opts @ l) (split_on LF (trimEnd out))))
                 @ tagIndent_of sel)"
    by (rule format_value)
next
  show "intdent_of sel opts
       = filter (\<lambda>c. c \<noteq> LF) (tagIndent_of sel)
         @ (if insertSpaces opts then replicate (tabSize opts) SPACE else [TAB])"
    by (rule intdent_unfold)
next
  show "\<exists>pre. sel = pre @ tagIndent_of sel"
    by (rule tagIndent_suffix)
next
  show "tagIndent_of sel = []
       \<or> (\<exists>blanks. list_all is_blank blanks
            \<and> (tagIndent_of sel = LF # blanks \<or> tagIndent_of sel = LF # CR # blanks))"
    by (rule tagIndent_shape)
next
  assume b: "set blanks \<subseteq> {CHR 0x20, CHR 0x09}"
  show "tagIndent_of (pre @ CHR 0x0A # blanks) = CHR 0x0A # blanks"
    using b by (rule tagIndent_of_tail(1))
  show "tagIndent_of (pre @ CHR 0x0A # CHR 0x0D # blanks) = CHR 0x0A # CHR 0x0D # blanks"
    using b by (rule tagIndent_of_tail(2))
  show "intdent_of (pre @ CHR 0x0A # blanks) opts
              = blanks @ (if insertSpaces opts then replicate (tabSize opts) (CHR 0x20) else [CHR 0x09])"
    using b by (rule intdent_of_tail(1))
  show "intdent_of (pre @ CHR 0x0A # CHR 0x0D # blanks) opts
              = CHR 0x0D # blanks
                @ (if insertSpaces opts then replicate (tabSize opts) (CHR 0x20) else [CHR 0x09])"
    using b by (rule intdent_of_tail(2))
qed

theorem format_reindents_witness:
  "format script_formatter script_text ''babel'' demo_options
     = Inr ([LF] @ ''        if (a) {'' @ [LF] @ ''            b;'' @ [LF] @ ''        }'' @ [LF] @ ''    '')
   \<and> tagIndent_of script_text = [LF] @ ''    ''
   \<and> intdent_of script_text demo_options = ''        ''
   \<and> format (\<lambda>t p w u. Inl SyntaxError) script_text ''babel'' demo_options = Inl SyntaxError"
  using format_reindents [where prettier = script_formatter and sel = script_text
      and parser = "''babel''" and opts = demo_options and blanks = "''    ''"
      and pre = "[LF] @ ''if(a){b}''"
      and out = "''if (a) {'' @ [LF] @ ''    b;'' @ [LF] @ ''}'' @ [LF]"]
    format_reindents [where prettier = "\<lambda>t p w u. Inl SyntaxError" and sel = script_text
      and parser = "''babel''" and opts = demo_options and e = SyntaxError]
  by (simp add: script_text_def script_formatter_def demo_options_def trimEnd_def
      is_white_space_def LF_def SPACE_def eval_nat_numeral)

lemma script_indent: "tagIndent_of script_text = [LF] @ ''    ''"
  by (simp add: tagIndent_of_def get_0_def script_text_def tail_matches_def is_blank_def LF_def CR_def)

text \<open>
  C1, as it is stated, fails: a script whose text ends with a line feed and four spaces is
  re-indented by eight spaces, the four of the closing line and one unit of four, so the
  lines of the formatter output do not appear with a prefix of exactly four spaces.
\<close>

theorem format_eight_spaces:
  "format script_formatter script_text ''babel'' demo_options
     = Inr ([LF] @ ''        if (a) {'' @ [LF] @ ''            b;'' @ [LF] @ ''        }'' @ [LF] @ ''    '')
   \<and> tagIndent_of script_text = [LF] @ ''    ''
   \<and> \<not> spec_every_line_prefixed ''    ''
         (''if (a) {'' @ [LF] @ ''    b;'' @ [LF] @ ''}'' @ [LF])
         ([LF] @ ''        if (a) {'' @ [LF] @ ''            b;'' @ [LF] @ ''        }'' @ [LF] @ ''    '')"
  by (simp add: format_def Let_def script_indent intdent_of_def prefixIndent_of_def repeat_def
      demo_options_def script_formatter_def trimEnd_def is_white_space_def LF_def SPACE_def
      spec_every_line_prefixed_def eval_nat_numeral)

section \<open>The modes: formatting, completion, definitions and references\<close>

lemma update_current_Some:
  "\<exists>cur. currentTextDocument (updateCurrentTextDocument env doc st) = Some cur"
  by (cases "currentTextDocument st") (auto simp: updateCurrentTextDocument_def)

text \<open>
  C5, as the code has it. The format operation of the JavaScript mode and of the LESS
  mode returns null, raising nothing, exactly when the text of the range is blank after
  trimming. For any other text it returns one edit whose range is the requested range
  and whose text is the value of \<open>format\<close> when the formatter returns an output, and it
  raises the formatter's error when the formatter raises.
\<close>

theorem format_null_iff_blank:
  "(js_format env document rng opts = Inr None \<longleftrightarrow> trim (getText document rng) = [])
   \<and> (trim (getText document rng) \<noteq> []
        \<and> prettier_format env (getText document rng) ''babel'' (tabSize opts) (\<not> insertSpaces opts) = Inr out
      \<longrightarrow> (\<exists>formatted. format (prettier_format env) (getText document rng) ''babel'' opts = Inr formatted
             \<and> js_format env document rng opts = Inr (Some [\<lparr>edit_range = rng, newText = formatted\<rparr>])))
   \<and> (trim (getText document rng) \<noteq> []
        \<and> prettier_format env (getText document rng) ''babel'' (tabSize opts) (\<not> insertSpaces opts) = Inl e
      \<longrightarrow> js_format env document rng opts = Inl e)
   \<and> (less_format lenv document rng opts = Inr None \<longleftrightarrow> trim (getText document rng) = [])
   \<and> (trim (getText document rng) \<noteq> []
        \<and> less_prettier_format lenv (getText document rng) ''less'' (tabSize opts) (\<not> insertSpaces opts) = Inr out
      \<longrightarrow> (\<exists>formatted. format (less_prettier_format lenv) (getText document rng) ''less'' opts = Inr formatted
             \<and> less_format lenv document rng opts = Inr (Some [\<lparr>edit_range = rng, newText = formatted\<rparr>])))
   \<and> (trim (getText document rng) \<noteq> []
        \<and> less_prettier_format lenv (getText document rng) ''less'' (tabSize opts) (\<not> insertSpaces opts) = Inl e
      \<longrightarrow> less_format lenv document rng opts = Inl e)"
  by (auto simp: js_format_def less_format_def format_def Let_def split: sum.splits)

lemma trim_demo: "trim ''var x;'' = ''var x;''" "trim ''a{}'' = ''a{}''" "trim ''var ='' = ''var =''"
  "trim ''a {'' = ''a {''"
  by (simp_all add: trim_def trimEnd_def is_white_space_def)

lemma trim_blank: "trim [SPACE, LF, TAB] = []"
  by (simp add: trim_def trimEnd_def is_white_space_def SPACE_def LF_def TAB_def)

theorem format_null_iff_blank_witness:
  "js_format demo_js_env demo_doc demo_range demo_options
       = Inr (Some [\<lparr>edit_range = demo_range, newText = [LF] @ ''    var x;''\<rparr>])
   \<and> less_format demo_less_env less_doc demo_range demo_options
       = Inr (Some [\<lparr>edit_range = demo_range, newText = [LF] @ ''    a {'' @ [LF] @ ''    }''\<rparr>])
   \<and> js_format demo_js_env blank_doc demo_range demo_options = Inr None
   \<and> less_format demo_less_env blank_doc demo_range demo_options = Inr None
   \<and> js_format demo_js_env broken_doc demo_range demo_options = Inl SyntaxError
   \<and> less_format demo_less_env broken_less_doc demo_range demo_options = Inl SyntaxError"
proof -
  have f1: "format (prettier_format demo_js_env) ''var x;'' ''babel'' demo_options
              = Inr ([LF] @ ''    var x;'')"
    by (simp add: format_def demo_js_env_def Let_def tagIndent_of_def get_0_def intdent_of_def
        prefixIndent_of_def repeat_def demo_options_def trimEnd_def is_white_space_def LF_def
        SPACE_def eval_nat_numeral)
  have f2: "format (less_prettier_format demo_less_env) ''a{}'' ''less'' demo_options
              = Inr ([LF] @ ''    a {'' @ [LF] @ ''    }'')"
    by (simp add: format_def demo_less_env_def Let_def tagIndent_of_def get_0_def intdent_of_def
        prefixIndent_of_def repeat_def demo_options_def trimEnd_def is_white_space_def LF_def
        SPACE_def eval_nat_numeral)
  show ?thesis
    using format_null_iff_blank [where env = demo_js_env and lenv = demo_less_env and document = demo_doc
        and rng = demo_range and opts = demo_options and out = "''var x;'' @ [LF]"]
      format_null_iff_blank [where env = demo_js_env and lenv = demo_less_env and document = less_doc
        and rng = demo_range and opts = demo_options and out = "''a {'' @ [LF] @ ''}'' @ [LF]"]
      format_null_iff_blank [where env = demo_js_env and lenv = demo_less_env and document = blank_doc
        and rng = demo_range and opts = demo_options]
      format_null_iff_blank [where env = demo_js_env and lenv = demo_less_env and document = broken_doc
        and rng = demo_range and opts = demo_options and e = SyntaxError]
      format_null_iff_blank [where env = demo_js_env and lenv = demo_less_env and document = broken_less_doc
        and rng = demo_range and opts = demo_options and e = SyntaxError]
    by (simp add: demo_doc_def less_doc_def blank_doc_def broken_doc_def broken_less_doc_def
        trim_demo trim_blank f1 f2)
       (simp add: demo_js_env_def demo_less_env_def)
qed

text \<open>
  C5, as it is stated, fails: the texts \<open>var =\<close> and \<open>a {\<close> are not blank, the formatter
  refuses them, and the format operations raise instead of returning an edit.
\<close>

theorem format_raises_on_unparsable:
  "trim (getText broken_doc demo_range) \<noteq> []
   \<and> js_format demo_js_env broken_doc demo_range demo_options = Inl SyntaxError
   \<and> trim (getText broken_less_doc demo_range) \<noteq> []
   \<and> less_format demo_less_env broken_less_doc demo_range demo_options = Inl SyntaxError"
  by (simp add: js_format_def less_format_def format_def broken_doc_def broken_less_doc_def
      demo_js_env_def demo_less_env_def trim_def trimEnd_def is_white_space_def)

text \<open>
  C6. \<open>doComplete\<close> of the JavaScript mode never raises, and returns the list with
  \<open>isIncomplete\<close> false and no items when the language service has no completions, be it
  no answer or an answer without entries; \<open>doComplete\<close> of the LESS mode returns that
  list when the stylesheet service does.
\<close>

theorem doComplete_empty:
  "(\<forall>e. fst (doComplete env document position st) \<noteq> Inl e)
   \<and> (\<forall>cur. currentTextDocument (updateCurrentTextDocument env document st) = Some cur
         \<and> (getCompletionsAtPosition env (updateCurrentTextDocument env document st) (offsetAt cur position) = None
            \<or> getCompletionsAtPosition env (updateCurrentTextDocument env document st) (offsetAt cur position) = Some [])
       \<longrightarrow> doComplete env document position st
             = (Inr \<lparr>isIncomplete = False, items = []\<rparr>, updateCurrentTextDocument env document st))
   \<and> (less_service_doComplete lenv (getEmbeddedDocument_less lenv document) position
          (parseStylesheet lenv (getEmbeddedDocument_less lenv document))
        = \<lparr>isIncomplete = False, items = []\<rparr>
       \<longrightarrow> less_doComplete lenv document position = \<lparr>isIncomplete = False, items = []\<rparr>)"
proof (intro conjI allI impI)
  fix e
  obtain cur where "currentTextDocument (updateCurrentTextDocument env document st) = Some cur"
    using update_current_Some by blast
  then show "fst (doComplete env document position st) \<noteq> Inl e"
    by (simp add: doComplete_def Let_def split: option.splits)
next
  fix cur
  assume "currentTextDocument (updateCurrentTextDocument env document st) = Some cur
         \<and> (getCompletionsAtPosition env (updateCurrentTextDocument env document st) (offsetAt cur position) = None
            \<or> getCompletionsAtPosition env (updateCurrentTextDocument env document st) (offsetAt cur position) = Some [])"
  then show "doComplete env document position st
             = (Inr \<lparr>isIncomplete = False, items = []\<rparr>, updateCurrentTextDocument env document st)"
    by (auto simp: doComplete_def Let_def)
next
  assume "less_service_doComplete lenv (getEmbeddedDocument_less lenv document) position
          (parseStylesheet lenv (getEmbeddedDocument_less lenv document))
        = \<lparr>isIncomplete = False, items = []\<rparr>"
  then show "less_doComplete lenv document position = \<lparr>isIncomplete = False, items = []\<rparr>"
    by (simp add: less_doComplete_def Let_def)
qed

theorem doComplete_empty_witness:
  "doComplete demo_js_env demo_doc \<lparr>line = 0, character = 9\<rparr> js_initial
     = (Inr \<lparr>isIncomplete = False, items = []\<rparr>, updateCurrentTextDocument demo_js_env demo_doc js_initial)
   \<and> less_doComplete demo_less_env demo_doc \<lparr>line = 0, character = 9\<rparr> = \<lparr>isIncomplete = False, items = []\<rparr>"
  using doComplete_empty [where env = demo_js_env and lenv = demo_less_env and document = demo_doc
      and position = "\<lparr>line = 0, character = 9\<rparr>" and st = js_initial]
  by (simp add: demo_js_env_def demo_less_env_def js_initial_def updateCurrentTextDocument_def)

text \<open>
  C7. Every location that \<open>findDefinition\<close> and \<open>findReferences\<close> return carries the uri
  of the host document, and the locations are those of the spans that the language
  service reports for the one synthetic script file, in order: spans of any other file
  name are dropped. Without an answer \<open>findDefinition\<close> returns null and
  \<open>findReferences\<close> the empty list.
\<close>

theorem find_results_in_host_document:
  assumes "currentTextDocument (updateCurrentTextDocument env document st) = Some cur"
  shows "(case getDefinitionAtPosition env (updateCurrentTextDocument env document st) (offsetAt cur position) of
            None \<Rightarrow> fst (findDefinition env document position st) = Inr None
          | Some ds \<Rightarrow>
              (\<exists>locs. fst (findDefinition env document position st) = Inr (Some locs)
                 \<and> (\<forall>l \<in> set locs. loc_uri l = uri document)
                 \<and> map loc_range locs
                     = map (\<lambda>d. convertRange cur (textSpan d)) (filter (\<lambda>d. fileName d = FILE_NAME) ds)))
       \<and> (case getReferencesAtPosition env (updateCurrentTextDocument env document st) (offsetAt cur position) of
            None \<Rightarrow> fst (findReferences env document position st) = Inr []
          | Some ds \<Rightarrow>
              (\<exists>locs. fst (findReferences env document position st) = Inr locs
                 \<and> (\<forall>l \<in> set locs. loc_uri l = uri document)
                 \<and> map loc_range locs
                     = map (\<lambda>d. convertRange cur (textSpan d)) (filter (\<lambda>d. fileName d = FILE_NAME) ds)))"
  using assms
  by (auto simp: findDefinition_def findReferences_def Let_def to_location_def comp_def split: option.splits)

theorem find_results_in_host_document_witness:
  "fst (findDefinition demo_js_env demo_doc \<lparr>line = 0, character = 12\<rparr> js_initial)
     = Inr (Some [\<lparr>loc_uri = ''file:///w/a.blade.php'',
                   loc_range = \<lparr>range_start = \<lparr>line = 0, character = 12\<rparr>,
                                range_end = \<lparr>line = 0, character = 13\<rparr>\<rparr>\<rparr>])
   \<and> fst (findReferences demo_js_env demo_doc \<lparr>line = 0, character = 12\<rparr> js_initial)
     = Inr [\<lparr>loc_uri = ''file:///w/a.blade.php'',
             loc_range = \<lparr>range_start = \<lparr>line = 0, character = 12\<rparr>,
                          range_end = \<lparr>line = 0, character = 13\<rparr>\<rparr>\<rparr>]"
  using find_results_in_host_document [where env = demo_js_env and document = demo_doc and st = js_initial
      and position = "\<lparr>line = 0, character = 12\<rparr>"
      and cur = "jsDocuments_get demo_js_env demo_doc"]
  by (auto simp: demo_js_env_def demo_doc_def js_initial_def updateCurrentTextDocument_def
      convertRange_def Range_create_def FILE_NAME_def)

section \<open>The JavaScript mode: document symbols\<close>

lemma collect_extends:
  shows "collectSymbols document cur item label st = Inr st' \<Longrightarrow> collected document cur st es
      \<Longrightarrow> \<exists>es'. collected document cur st' (es @ es')"
    and "collectChildren document cur its label st = Inr st' \<Longrightarrow> collected document cur st es
      \<Longrightarrow> \<exists>es'. collected document cur st' (es @ es')"
proof (induction document cur item label st and document cur its label st
    arbitrary: st' es and st' es rule: collectSymbols_collectChildren.induct)
  case (1 document cur t k sp ch containerLabel st)
  note run = "1.prems"(1) and inv = "1.prems"(2)
  obtain span0 others where sp: "sp = span0 # others"
    using run by (cases sp) auto
  show ?case
  proof (cases "k \<noteq> ''script'' \<and> sig_of t k span0 \<notin> existing st")
    case True
    let ?st1 = "\<lparr>result = result st @ [to_symbol document cur t k span0 containerLabel],
                 existing = insert (sig_of t k span0) (existing st)\<rparr>"
    have r: "collectChildren document cur ch (Some t) ?st1 = Inr st'"
      using run sp True by (simp add: Let_def)
    have "collected document cur ?st1 (es @ [(t, k, span0, containerLabel)])"
      using inv True
      by (auto simp: collected_def emitted_symbol_def emitted_sig_def emitted_kind_def)
    then obtain es' where "collected document cur st' ((es @ [(t, k, span0, containerLabel)]) @ es')"
      using "1.IH"(1) [OF sp refl True r] by blast
    then show ?thesis by (intro exI [of _ "(t, k, span0, containerLabel) # es'"]) simp
  next
    case False
    have r: "collectChildren document cur ch containerLabel st = Inr st'"
      using run sp False by (auto simp: Let_def)
    show ?thesis
      using "1.IH"(2) [OF sp refl False r inv] .
  qed
next
  case (2 document cur containerLabel st)
  then show ?case by (auto intro: exI [of _ "[]"])
next
  case (3 document cur child rest containerLabel st)
  note run = "3.prems"(1) and inv = "3.prems"(2)
  obtain st1 where c: "collectSymbols document cur child containerLabel st = Inr st1"
    and r: "collectChildren document cur rest containerLabel st1 = Inr st'"
    using run by (auto split: sum.splits)
  obtain es1 where e1: "collected document cur st1 (es @ es1)"
    using "3.IH"(1) [OF c inv] by blast
  obtain es2 where "collected document cur st' ((es @ es1) @ es2)"
    using "3.IH"(2) [OF c r e1] by blast
  then show ?case
    by (intro exI [of _ "es1 @ es2"]) simp
qed

lemma distinct_keys:
  assumes "distinct (map emitted_sig es)"
  shows "distinct (map emitted_key es)"
proof -
  define f :: "string \<times> string \<times> nat option \<Rightarrow> string"
    where "f = (\<lambda>(t, k, s). t @ k @ (case s of None \<Rightarrow> ''undefined'' | Some n \<Rightarrow> show_nat n))"
  have one: "emitted_sig e = f (emitted_key e)" for e
    by (cases e) (simp add: f_def emitted_key_def emitted_sig_def sig_of_def show_start_def)
  have eq: "map emitted_sig es = map f (map emitted_key es)"
    by (simp add: one)
  have "distinct (map f (map emitted_key es))"
    using assms by (simp only: eq)
  then show ?thesis
    by (rule distinct_map [THEN iffD1, THEN conjunct1])
qed

lemma collect_leaves:
  "distinct (map leaf_sig cs) \<Longrightarrow> set (map leaf_sig cs) \<inter> existing st = {}
   \<Longrightarrow> list_all (\<lambda>c. fst (snd c) \<noteq> ''script'') cs
   \<Longrightarrow> collectChildren document cur (map leaf cs) label st
       = Inr \<lparr>result = result st @ map (leaf_symbol document cur label) cs,
              existing = existing st \<union> set (map leaf_sig cs)\<rparr>"
proof (induction cs arbitrary: st)
  case Nil
  show ?case by simp
next
  case (Cons c cs)
  obtain t k span0 where c: "c = (t, k, span0)" by (cases c) auto
  let ?st1 = "\<lparr>result = result st @ [to_symbol document cur t k span0 label],
               existing = insert (sig_of t k span0) (existing st)\<rparr>"
  have fresh: "k \<noteq> ''script'' \<and> sig_of t k span0 \<notin> existing st"
    using Cons.prems c by (auto simp: leaf_sig_def)
  have one: "collectSymbols document cur (leaf c) label st = Inr ?st1"
    using fresh c by (simp add: leaf_def Let_def)
  have "collectChildren document cur (map leaf cs) label ?st1
          = Inr \<lparr>result = result ?st1 @ map (leaf_symbol document cur label) cs,
                 existing = existing ?st1 \<union> set (map leaf_sig cs)\<rparr>"
    using Cons.prems c by (intro Cons.IH) (auto simp: leaf_sig_def)
  then show ?case
    using one c by (simp add: leaf_symbol_def leaf_sig_def)
qed

text \<open>
  What the code ensures: the returned symbols come from items of pairwise different
  (name, analyzer kind, start offset) keys, none of kind \<open>script\<close>; an emitted item is
  followed by its childless children of new, pairwise different keys under its name; an
  item of kind \<open>script\<close> hands the label it was given on to its children.
\<close>

lemma collectSymbols_emitted:
  "(fst (findDocumentSymbols env document st) = Inr syms
      \<and> currentTextDocument (updateCurrentTextDocument env document st) = Some cur
     \<longrightarrow> (\<exists>es. syms = map (emitted_symbol document cur) es
            \<and> distinct (map emitted_key es)
            \<and> list_all (\<lambda>e. emitted_kind e \<noteq> ''script'') es))
   \<and> (k \<noteq> ''script'' \<and> sig_of t k spn \<notin> existing cst
        \<and> distinct (map leaf_sig cs)
        \<and> set (map leaf_sig cs) \<inter> insert (sig_of t k spn) (existing cst) = {}
        \<and> list_all (\<lambda>c. fst (snd c) \<noteq> ''script'') cs
       \<longrightarrow> (\<exists>st'. collectSymbols document cur (NavigationBarItem t k (spn # others) (map leaf cs)) label cst
                     = Inr st'
              \<and> result st' = result cst @ to_symbol document cur t k spn label
                                # map (leaf_symbol document cur (Some t)) cs))
   \<and> (collectSymbols document cur (NavigationBarItem t ''script'' (spn # others) its) label cst
        = collectChildren document cur its label cst)"
proof (intro conjI impI)
  assume h: "fst (findDocumentSymbols env document st) = Inr syms
      \<and> currentTextDocument (updateCurrentTextDocument env document st) = Some cur"
  show "\<exists>es. syms = map (emitted_symbol document cur) es
            \<and> distinct (map emitted_key es)
            \<and> list_all (\<lambda>e. emitted_kind e \<noteq> ''script'') es"
  proof (cases "getNavigationBarItems env (updateCurrentTextDocument env document st)")
    case None
    then have "syms = []" using h by (auto simp: findDocumentSymbols_def Let_def)
    then show ?thesis by (intro exI [of _ "[]"]) simp
  next
    case (Some its)
    then obtain c where run: "collectChildren document cur its None \<lparr>result = [], existing = {}\<rparr> = Inr c"
      and syms: "syms = result c"
      using h by (auto simp: findDocumentSymbols_def Let_def split: sum.splits)
    have "collected document cur \<lparr>result = [], existing = {}\<rparr> []"
      by (simp add: collected_def)
    then obtain es where "collected document cur c ([] @ es)"
      using collect_extends(2) [OF run] by blast
    then show ?thesis
      using syms distinct_keys [of es] by (intro exI [of _ es]) (simp add: collected_def)
  qed
next
  assume h: "k \<noteq> ''script'' \<and> sig_of t k spn \<notin> existing cst
        \<and> distinct (map leaf_sig cs)
        \<and> set (map leaf_sig cs) \<inter> insert (sig_of t k spn) (existing cst) = {}
        \<and> list_all (\<lambda>c. fst (snd c) \<noteq> ''script'') cs"
  let ?st1 = "\<lparr>result = result cst @ [to_symbol document cur t k spn label],
               existing = insert (sig_of t k spn) (existing cst)\<rparr>"
  have "collectChildren document cur (map leaf cs) (Some t) ?st1
          = Inr \<lparr>result = result ?st1 @ map (leaf_symbol document cur (Some t)) cs,
                 existing = existing ?st1 \<union> set (map leaf_sig cs)\<rparr>"
    using h by (intro collect_leaves) auto
  then show "\<exists>st'. collectSymbols document cur (NavigationBarItem t k (spn # others) (map leaf cs)) label cst
                     = Inr st'
              \<and> result st' = result cst @ to_symbol document cur t k spn label
                                # map (leaf_symbol document cur (Some t)) cs"
    using h by (simp add: Let_def)
next
  show "collectSymbols document cur (NavigationBarItem t ''script'' (spn # others) its) label cst
        = collectChildren document cur its label cst"
    by (simp add: Let_def)
qed

lemma show_nat_small: "show_nat 0 = ''0''" "show_nat 10 = ''10''" "show_nat 5 = ''5''" "show_nat 9 = ''9''"
  by code_simp+

lemma nav_current:
  "currentTextDocument (updateCurrentTextDocument nav_env demo_doc js_initial) = Some nav_cur"
  by (simp add: updateCurrentTextDocument_def js_initial_def nav_env_def nav_cur_def)

lemma nav_symbols:
  "fst (findDocumentSymbols nav_env demo_doc js_initial) = Inr [sym_C, sym_m]"
  by (simp add: findDocumentSymbols_def Let_def nav_current)
     (simp add: nav_env_def nav_items_def nav_cur_def demo_js_env_def demo_doc_def sig_of_def
        show_start_def span_at_def show_nat_small to_symbol_def convertSymbolKind_def
        convertRange_def Range_create_def sym_C_def sym_m_def)

lemma twin_symbols:
  "fst (findDocumentSymbols twin_env demo_doc js_initial) = Inr [sym_x, sym_x]"
  by (simp add: findDocumentSymbols_def Let_def updateCurrentTextDocument_def js_initial_def
        twin_env_def twin_items_def demo_js_env_def demo_doc_def sig_of_def show_start_def
        span_at_def show_nat_small to_symbol_def convertSymbolKind_def convertRange_def
        Range_create_def sym_x_def)

text \<open>
  C8. No two returned symbols share a (name, kind, startOffset) key, and flattened
  children carry their parent's name as \<open>containerName\<close>. The code does not get there
  for the navigation bar of \<open>class C { m() {} }\<close>: the class is listed once as a child
  of the script item and once as an item of its own with its method. The second
  occurrence is a duplicate, the assignment \<open>containerLabel = item.text\<close> sits in the
  branch that emits an item, and so the method is returned without a container.
\<close>

theorem method_without_container:
  "fst (findDocumentSymbols nav_env demo_doc js_initial) = Inr [sym_C, sym_m]
   \<and> sym_name sym_m = ''m'' \<and> containerName sym_m = None \<and> containerName sym_m \<noteq> Some ''C''"
  using nav_symbols by (simp add: sym_m_def)

section \<open>Template jump-to-definition\<close>

lemma match_here_pos: "match_here s = Some n \<Longrightarrow> 0 < n \<and> n \<le> length s"
proof -
  have lq: "lazy_to_quote cs = Some m \<Longrightarrow> m \<le> length cs" for cs m
    by (induction cs arbitrary: m) (auto split: if_splits)
  assume m: "match_here s = Some n"
  then obtain c cs k where d: "drop 9 s = c # cs" "lazy_to_quote cs = Some k" "n = 9 + 1 + k"
    by (auto simp: match_here_def split: if_splits list.splits)
  have "length (drop 9 s) = Suc (length cs)" using d(1) by simp
  then have "length s = 9 + Suc (length cs)" by simp
  then show ?thesis using d(3) lq [OF d(2)] by simp
qed

lemma exec_all_bounds:
  "p \<in> set (exec_all i s) \<Longrightarrow> i \<le> part_start p \<and> part_start p < part_end p \<and> part_end p \<le> i + length s"
proof (induction i s rule: exec_all.induct)
  case (1 i)
  then show ?case by simp
next
  case (2 i c cs)
  show ?case
  proof (cases "match_here (c # cs)")
    case None
    then have "p \<in> set (exec_all (i + 1) cs)" using "2.prems" by simp
    then show ?thesis using "2.IH"(1) [OF None] by simp
  next
    case (Some n)
    have n: "0 < n \<and> n \<le> length (c # cs)" using Some by (rule match_here_pos)
    consider "part_start p = i \<and> part_end p = i + n"
      | "p \<in> set (exec_all (i + n) (drop n (c # cs)))"
      using "2.prems" Some by auto
    then show ?thesis
    proof cases
      case 1
      then show ?thesis using n by simp
    next
      case 2
      then show ?thesis using "2.IH"(2) [OF Some] n by simp
    qed
  qed
qed

lemma exec_all_ordered:
  "sorted_wrt (\<lambda>p q. part_end p \<le> part_start q) (exec_all i s)"
proof (induction i s rule: exec_all.induct)
  case (1 i)
  show ?case by simp
next
  case (2 i c cs)
  show ?case
  proof (cases "match_here (c # cs)")
    case None
    then show ?thesis using "2.IH"(1) by simp
  next
    case (Some n)
    have "\<forall>q \<in> set (exec_all (i + n) (drop n (c # cs))). i + n \<le> part_start q"
      using exec_all_bounds by blast
    then show ?thesis using Some "2.IH"(2) [OF Some] by simp
  qed
qed

lemma exec_all_apart:
  assumes "p \<in> set (exec_all i s)" and "q \<in> set (exec_all i s)"
  shows "p = q \<or> part_end p \<le> part_start q \<or> part_end q \<le> part_start p"
proof -
  have "sorted_wrt R xs \<Longrightarrow> x \<in> set xs \<Longrightarrow> y \<in> set xs \<Longrightarrow> x = y \<or> R x y \<or> R y x"
    for R :: "IncludePart \<Rightarrow> IncludePart \<Rightarrow> bool" and xs x y
    by (induction xs) auto
  then show ?thesis using exec_all_ordered [of i s] assms by blast
qed

lemma findIncludeParts_apart:
  assumes "p \<in> set (findIncludeParts l)" and "q \<in> set (findIncludeParts l)"
  shows "part_start p < part_end p
         \<and> (p = q \<or> part_end p \<le> part_start q \<or> part_end q \<le> part_start p)"
  using assms exec_all_apart [of p 0 l q] exec_all_bounds [of p 0 l]
  by (auto simp: findIncludeParts_def split: if_splits)


lemma no_span_at_bounds:
  assumes "p \<in> set (findIncludeParts l)" and "ch = part_start p \<or> ch = part_end p"
  shows "filter (spans_cursor ch) (findIncludeParts l) = []"
proof -
  have "\<not> spans_cursor ch q" if "q \<in> set (findIncludeParts l)" for q
    using findIncludeParts_apart [OF assms(1) that] findIncludeParts_apart [OF that assms(1)] assms(2)
    by (auto simp: spans_cursor_def)
  then show ?thesis by (auto simp: filter_empty_conv)
qed

lemma join_split_dots: "join_with ''/'' (split_on (CHR ''.'') t) = map dot_to_slash t"
proof (induction t)
  case Nil
  show ?case by simp
next
  case (Cons x xs)
  obtain l ls where sp: "split_on (CHR ''.'') xs = l # ls"
    by (cases "split_on (CHR ''.'') xs") (auto split: list.splits if_splits elim: split_on.elims)
  show ?case
  proof (cases "x = CHR ''.''")
    case True
    then show ?thesis using sp Cons.IH by (simp add: dot_to_slash_def)
  next
    case False
    then show ?thesis using sp Cons.IH by (cases ls) (auto simp: dot_to_slash_def)
  qed
qed

lemma peek_filter:
  assumes "blade (settings options) = Some b" and "views b = Some v"
  shows "peekFileDefinition document position options =
     Inr (Some (case filter (spans_cursor (character position))
                       (findIncludeParts (lineText_of document position)) of
             [] \<Rightarrow> []
           | p # _ \<Rightarrow>
               [\<lparr>loc_uri =
                    (case getWorkspacePath (workspaceFolders options) document of None \<Rightarrow> [] | Some w \<Rightarrow> w)
                    @ ''/'' @ views_path v @ ''/'' @ map dot_to_slash (template p) @ ''.blade.php'',
                  loc_range = \<lparr>range_start = \<lparr>line = 0, character = 0\<rparr>,
                               range_end = \<lparr>line = 0, character = 0\<rparr>\<rparr>\<rparr>]))"
proof -
  have sp: "spans_cursor (character position)
              = (\<lambda>part. part_start part < character position \<and> part_end part > character position)"
    by (auto simp: spans_cursor_def fun_eq_iff)
  have j: "joinUri (joinUri [a, c] # split_on (CHR ''.'') t) = a @ ''/'' @ c @ ''/'' @ map dot_to_slash t"
    for a c t
  proof -
    obtain l ls where "split_on (CHR ''.'') t = l # ls"
      by (cases "split_on (CHR ''.'') t") (auto elim: split_on.elims split: if_splits list.splits)
    then show ?thesis using join_split_dots [of t] by (simp add: joinUri_def)
  qed
  show ?thesis
    unfolding peekFileDefinition_def Let_def sp [symmetric]
    using assms
    by (simp add: j Location_create_def Range_create_def Position_create_def split: list.splits)
qed

lemma peek_raises:
  assumes "blade (settings options) = None \<or> (blade (settings options) = Some b \<and> views b = None)"
  shows "peekFileDefinition document position options = Inl TypeError"
  using assms by (auto simp: peekFileDefinition_def Let_def)

lemma peek_never_null: "peekFileDefinition document position options \<noteq> Inr None"
  by (simp add: peekFileDefinition_def Let_def split: option.splits)
























lemma include_doc_lines:
  "lineText_of include_doc \<lparr>line = 2, character = c\<rparr>
     = ''  @include('' @ [CHR 0x27] @ ''layouts.app'' @ [CHR 0x27] @ '')'' @ [LF]"
  "lineText_of include_doc \<lparr>line = 5, character = c\<rparr>
     = ''<div>@Extends('' @ [CHR 0x22] @ ''admin.main'' @ [CHR 0x22] @ '')'' @ [LF]"
  by (simp_all add: lineText_of_def include_doc_def Position_create_def Range_create_def)

lemma include_lines_parts:
  "findIncludeParts (''  @include('' @ [CHR 0x27] @ ''layouts.app'' @ [CHR 0x27] @ '')'' @ [LF])
     = [include_part]"
  "findIncludeParts (''<div>@Extends('' @ [CHR 0x22] @ ''admin.main'' @ [CHR 0x22] @ '')'' @ [LF])
     = [extends_part]"
  by code_simp+

lemma include_doc_parts:
  "findIncludeParts (lineText_of include_doc \<lparr>line = 2, character = c\<rparr>) = [include_part]"
  "findIncludeParts (lineText_of include_doc \<lparr>line = 5, character = c\<rparr>) = [extends_part]"
  by (simp_all only: include_doc_lines include_lines_parts)





text \<open>
  C10, as the code has it. \<open>peekFileDefinition\<close> never returns null. For options whose
  settings carry \<open>blade.views\<close> it returns the empty list when no part of the cursor's
  line starts before the cursor column and ends after it, and so also when the cursor is
  exactly at the start or exactly at the end of a part. For settings without \<open>blade\<close> or
  without \<open>blade.views\<close> it raises.
\<close>

theorem peek_empty_outside:
  "peekFileDefinition document position options \<noteq> Inr None
   \<and> (blade (settings options) = Some b \<and> views b = Some v
        \<and> list_all (\<lambda>part. \<not> (part_start part < character position \<and> part_end part > character position))
            (findIncludeParts (lineText_of document position))
       \<longrightarrow> peekFileDefinition document position options = Inr (Some []))
   \<and> (blade (settings options) = Some b \<and> views b = Some v
        \<and> p \<in> set (findIncludeParts (lineText_of document position))
        \<and> (character position = part_start p \<or> character position = part_end p)
       \<longrightarrow> peekFileDefinition document position options = Inr (Some []))
   \<and> (blade (settings options) = None \<or> (blade (settings options) = Some b \<and> views b = None)
       \<longrightarrow> peekFileDefinition document position options = Inl TypeError)"
proof (intro conjI impI)
  show "peekFileDefinition document position options \<noteq> Inr None"
    by (rule peek_never_null)
next
  assume h: "blade (settings options) = Some b \<and> views b = Some v
        \<and> list_all (\<lambda>part. \<not> (part_start part < character position \<and> part_end part > character position))
            (findIncludeParts (lineText_of document position))"
  then have "filter (spans_cursor (character position)) (findIncludeParts (lineText_of document position)) = []"
    by (auto simp: filter_empty_conv list_all_iff spans_cursor_def)
  then show "peekFileDefinition document position options = Inr (Some [])"
    using h peek_filter [of options b v document position] by simp
next
  assume h: "blade (settings options) = Some b \<and> views b = Some v
        \<and> p \<in> set (findIncludeParts (lineText_of document position))
        \<and> (character position = part_start p \<or> character position = part_end p)"
  then have "filter (spans_cursor (character position)) (findIncludeParts (lineText_of document position)) = []"
    using no_span_at_bounds by blast
  then show "peekFileDefinition document position options = Inr (Some [])"
    using h peek_filter [of options b v document position] by simp
next
  assume "blade (settings options) = None \<or> (blade (settings options) = Some b \<and> views b = None)"
  then show "peekFileDefinition document position options = Inl TypeError"
    by (rule peek_raises)
qed

theorem peek_empty_outside_witness:
  "peekFileDefinition include_doc \<lparr>line = 2, character = 2\<rparr> include_options = Inr (Some [])
   \<and> peekFileDefinition include_doc \<lparr>line = 2, character = 24\<rparr> include_options = Inr (Some [])
   \<and> peekFileDefinition include_doc \<lparr>line = 2, character = 1\<rparr> include_options = Inr (Some [])
   \<and> peekFileDefinition include_doc \<lparr>line = 2, character = 1\<rparr> bare_options = Inl TypeError"
  using peek_empty_outside [where p = include_part and document = include_doc
      and position = "\<lparr>line = 2, character = 2\<rparr>" and options = include_options
      and b = "\<lparr>views = Some \<lparr>views_path = ''resources/views''\<rparr>\<rparr>"
      and v = "\<lparr>views_path = ''resources/views''\<rparr>"]
    peek_empty_outside [where p = include_part and document = include_doc
      and position = "\<lparr>line = 2, character = 24\<rparr>" and options = include_options
      and b = "\<lparr>views = Some \<lparr>views_path = ''resources/views''\<rparr>\<rparr>"
      and v = "\<lparr>views_path = ''resources/views''\<rparr>"]
    peek_empty_outside [where p = include_part and document = include_doc
      and position = "\<lparr>line = 2, character = 1\<rparr>" and options = include_options
      and b = "\<lparr>views = Some \<lparr>views_path = ''resources/views''\<rparr>\<rparr>"
      and v = "\<lparr>views_path = ''resources/views''\<rparr>"]
    peek_empty_outside [where document = include_doc
      and position = "\<lparr>line = 2, character = 1\<rparr>" and options = bare_options]
  by (simp add: include_doc_parts)
     (simp add: include_part_def include_options_def bare_options_def)

text \<open>
  C10, as it is stated, fails: no part of the line spans column 2, and with the empty
  settings the function raises instead of returning the empty list.
\<close>

theorem peek_raises_outside:
  "list_all (\<lambda>part. \<not> (part_start part < 2 \<and> part_end part > 2))
     (findIncludeParts (lineText_of include_doc \<lparr>line = 2, character = 2\<rparr>))
   \<and> peekFileDefinition include_doc \<lparr>line = 2, character = 2\<rparr> bare_options = Inl TypeError"
  by (simp add: include_doc_parts)
     (simp add: include_part_def peekFileDefinition_def bare_options_def Let_def)

end
